theory Spec2Isabelle
  imports Complex_Main "HOL-Library.Multiset"
begin

section \<open>JavaScript numbers\<close>

text \<open>
  A JavaScript number is NaN, one of the two infinities, or a finite value. Finite values
  are kept as exact rationals: every binary64 value is a rational, comparison and the sign
  of a difference are exact on binary64, and rounding of products and quotients is not
  modelled. The two zeros are one value.
\<close>

datatype jsnum = NaN | NInf | Fin rat | PInf

text \<open>\<^verbatim>\<open>a < b\<close>: false as soon as one side is NaN.\<close>

fun jlt :: "jsnum \<Rightarrow> jsnum \<Rightarrow> bool" where
  "jlt NaN b = False"
| "jlt a NaN = False"
| "jlt PInf b = False"
| "jlt a NInf = False"
| "jlt NInf b = True"
| "jlt a PInf = True"
| "jlt (Fin a) (Fin b) = (a < b)"

text \<open>\<^verbatim>\<open>a > b\<close> and \<^verbatim>\<open>a >= b\<close>.\<close>

definition jgt :: "jsnum \<Rightarrow> jsnum \<Rightarrow> bool" where
  "jgt a b = jlt b a"

definition jge :: "jsnum \<Rightarrow> jsnum \<Rightarrow> bool" where
  "jge a b = (a \<noteq> NaN \<and> b \<noteq> NaN \<and> \<not> jlt a b)"

text \<open>\<^verbatim>\<open>Math.abs\<close>.\<close>

fun jabs :: "jsnum \<Rightarrow> jsnum" where
  "jabs NaN = NaN"
| "jabs NInf = PInf"
| "jabs PInf = PInf"
| "jabs (Fin a) = Fin (abs a)"

text \<open>\<^verbatim>\<open>a - b\<close>.\<close>

fun jsub :: "jsnum \<Rightarrow> jsnum \<Rightarrow> jsnum" where
  "jsub NaN b = NaN"
| "jsub a NaN = NaN"
| "jsub PInf PInf = NaN"
| "jsub NInf NInf = NaN"
| "jsub PInf b = PInf"
| "jsub NInf b = NInf"
| "jsub a PInf = NInf"
| "jsub a NInf = PInf"
| "jsub (Fin a) (Fin b) = Fin (a - b)"

text \<open>\<^verbatim>\<open>a / b\<close>, a zero divisor taken as \<^verbatim>\<open>+0\<close>.\<close>

fun jdiv :: "jsnum \<Rightarrow> jsnum \<Rightarrow> jsnum" where
  "jdiv NaN b = NaN"
| "jdiv a NaN = NaN"
| "jdiv (Fin a) (Fin b) =
     (if b = 0 then (if a = 0 then NaN else if 0 < a then PInf else NInf)
      else Fin (a / b))"
| "jdiv (Fin a) b = Fin 0"
| "jdiv PInf (Fin b) = (if b < 0 then NInf else PInf)"
| "jdiv NInf (Fin b) = (if b < 0 then PInf else NInf)"
| "jdiv a b = NaN"

text \<open>\<^verbatim>\<open>a * b\<close>.\<close>

fun jmul :: "jsnum \<Rightarrow> jsnum \<Rightarrow> jsnum" where
  "jmul NaN b = NaN"
| "jmul a NaN = NaN"
| "jmul (Fin a) (Fin b) = Fin (a * b)"
| "jmul (Fin a) PInf = (if a = 0 then NaN else if 0 < a then PInf else NInf)"
| "jmul (Fin a) NInf = (if a = 0 then NaN else if 0 < a then NInf else PInf)"
| "jmul PInf (Fin b) = (if b = 0 then NaN else if 0 < b then PInf else NInf)"
| "jmul NInf (Fin b) = (if b = 0 then NaN else if 0 < b then NInf else PInf)"
| "jmul PInf PInf = PInf"
| "jmul NInf NInf = PInf"
| "jmul PInf NInf = NInf"
| "jmul NInf PInf = NInf"

text \<open>Truthiness of a number: NaN and zero are falsy.\<close>

definition numTruthy :: "jsnum \<Rightarrow> bool" where
  "numTruthy a = (a \<noteq> NaN \<and> a \<noteq> Fin 0)"

section \<open>The built-in parseFloat\<close>

text \<open>
  \<^verbatim>\<open>parseFloat\<close> is a built-in of the language, not code of the repository. It is
  written out here after ECMAScript's definition: leading white space is skipped, the
  longest prefix that is a decimal literal (sign, \<^verbatim>\<open>Infinity\<close>, or digits with an
  optional fraction and exponent) is read, and NaN is the result when there is no such
  prefix. Strings are ASCII; the value is the exact decimal value, which is neither
  rounded to binary64 nor turned into an infinity or a zero when it is out of range.
\<close>

definition isWhiteSpace :: "char \<Rightarrow> bool" where
  "isWhiteSpace c = (of_char c \<in> {9, 10, 11, 12, 13, 32 :: nat})"

definition isDigit :: "char \<Rightarrow> bool" where
  "isDigit c = (48 \<le> (of_char c :: nat) \<and> (of_char c :: nat) \<le> 57)"

definition digitsVal :: "string \<Rightarrow> nat" where
  "digitsVal ds = foldl (\<lambda>acc c. 10 * acc + (of_char c - 48)) 0 ds"

definition splitSign :: "string \<Rightarrow> bool \<times> string" where
  "splitSign t =
     (case t of
        [] \<Rightarrow> (False, t)
      | c # r \<Rightarrow> if c = CHR ''-'' then (True, r)
                 else if c = CHR ''+'' then (False, r) else (False, t))"

definition exponentPart :: "string \<Rightarrow> int" where
  "exponentPart r =
     (case r of
        [] \<Rightarrow> 0
      | c # r' \<Rightarrow>
          if c = CHR ''e'' \<or> c = CHR ''E'' then
            (let (eneg, d) = splitSign r'; ds = takeWhile isDigit d
             in if ds = [] then 0
                else if eneg then - int (digitsVal ds) else int (digitsVal ds))
          else 0)"

definition pow10 :: "int \<Rightarrow> rat" where
  "pow10 e = (if 0 \<le> e then 10 ^ nat e else 1 / 10 ^ nat (- e))"

definition parseFloat :: "string \<Rightarrow> jsnum" where
  "parseFloat s =
     (let (neg, u) = splitSign (dropWhile isWhiteSpace s)
      in if take 8 u = ''Infinity'' then (if neg then NInf else PInf)
         else
           let ip = takeWhile isDigit u;
               r1 = dropWhile isDigit u;
               hasDot = (case r1 of [] \<Rightarrow> False | c # _ \<Rightarrow> c = CHR ''.'');
               fp = (if hasDot then takeWhile isDigit (tl r1) else []);
               r2 = (if hasDot then dropWhile isDigit (tl r1) else r1)
           in if ip = [] \<and> fp = [] then NaN
              else
                let v = rat_of_nat (digitsVal (ip @ fp)) / 10 ^ length fp
                          * pow10 (exponentPart r2)
                in Fin (if neg then - v else v))"

section \<open>Data model\<close>

text \<open>
  \<^verbatim>\<open>XRPLTrustline\<close>: the scan reads the fields \<^verbatim>\<open>account\<close> and \<^verbatim>\<open>balance\<close> (a decimal
  string) only; the other seven fields of the interface are never read and are left out.
\<close>

record XRPLTrustline =
  line_account :: string
  line_balance :: string

text \<open>The element type of \<^verbatim>\<open>allLines\<close> and \<^verbatim>\<open>rawHolders\<close>: \<^verbatim>\<open>{account, balance}\<close>.\<close>

record RawHolding =
  raw_account :: string
  raw_balance :: jsnum

datatype walletType = cex | team

record Holder =
  rank :: nat
  account :: string
  balance :: jsnum
  percentage :: jsnum
  tier :: string
  tierIcon :: string
  tierColor :: string
  walletLabel :: "string option"
  walletType :: "walletType option"

record FetchStatus =
  isFetching :: bool
  linesFetched :: nat
  statusMessage :: string
  error :: "string option"
  complete :: bool

text \<open>\<^verbatim>\<open>TokenMetrics\<close>: the scan engine reads \<^verbatim>\<open>totalSupply\<close> only.\<close>

record TokenMetrics =
  totalSupply :: jsnum

section \<open>Aggregation\<close>

text \<open>The table \<^verbatim>\<open>KNOWN_WALLETS\<close>.\<close>

definition KNOWN_WALLETS :: "string \<Rightarrow> (string \<times> walletType) option" where
  "KNOWN_WALLETS = map_of
     [(''rCSCManTZ8ME9EoLrSHHYKW8PPwWMgkwr'', (''Issuer / Foundation'', team)),
      (''raLPjTYeGEzf4yt4lqZz5AmfTDMhfq6F7q'', (''Bitrue'', cex)),
      (''rLNaPoKeeBJZe2nz6oXAG9Jy9it8r912Fk'', (''Bitrue Hot'', cex)),
      (''rMdG3ju8pgyVh29ELPWaDuA74CpWW6Fxns'', (''Uphold'', cex)),
      (''rhub8VRN55sF4G7xQ1G1dfyE863FdrVk93'', (''GateHub'', cex)),
      (''rPVMhWBsfF9iMXYj3aAzJVkPDTFNSyWdKy'', (''Bittrex'', cex)),
      (''rNfwFmsgM97YW43d7s1832J8f4i7eG8xG3'', (''Xumm / XRPL Labs'', cex))]"

text \<open>The account literal of the filter in \<^verbatim>\<open>processResults\<close>.\<close>

definition ISSUER :: string where
  "ISSUER = ''rCSCManTZ8ME9EoLrSHHYKW8PPwWMgkwr''"

text \<open>
  \<^verbatim>\<open>Array.prototype.sort\<close> with a comparator. The language requires the sort to be stable,
  and with a consistent comparator the result is then unique; it is computed here by
  insertion from the right. An element moves behind its right neighbour only when the
  comparator is positive; a zero or NaN comparison leaves the two in their order.
\<close>

fun insertBy :: "('a \<Rightarrow> 'a \<Rightarrow> jsnum) \<Rightarrow> 'a \<Rightarrow> 'a list \<Rightarrow> 'a list" where
  "insertBy cmp x [] = [x]"
| "insertBy cmp x (y # ys) =
     (if jgt (cmp x y) (Fin 0) then y # insertBy cmp x ys else x # y # ys)"

definition sortBy :: "('a \<Rightarrow> 'a \<Rightarrow> jsnum) \<Rightarrow> 'a list \<Rightarrow> 'a list" where
  "sortBy cmp xs = foldr (insertBy cmp) xs []"

text \<open>The comparator \<^verbatim>\<open>(a, b) => b.balance - a.balance\<close>.\<close>

definition byBalanceDesc :: "RawHolding \<Rightarrow> RawHolding \<Rightarrow> jsnum" where
  "byBalanceDesc a b = jsub (raw_balance b) (raw_balance a)"

text \<open>
  The ladder of thresholds in \<^verbatim>\<open>processResults\<close>: tier, icon and colour of a balance.
  The icons are the bytes of the literals as they stand in the source file.
\<close>

definition tierOf :: "jsnum \<Rightarrow> string \<times> string \<times> string" where
  "tierOf b =
     (if jge b (Fin 1000000000) then
        (''Kraken'',
         [CHR 0xC3, CHR 0xB0, CHR 0xC5, CHR 0xB8, CHR 0xC2, CHR 0xA6, CHR 0xE2, CHR 0x80, CHR 0x98],
         ''text-purple-600 dark:text-purple-400 drop-shadow-[0_0_8px_rgba(168,85,247,0.5)]'')
      else if jge b (Fin 500000000) then
        (''Megalodon'',
         [CHR 0xC3, CHR 0xB0, CHR 0xC5, CHR 0xB8, CHR 0xC2, CHR 0xA6, CHR 0xCB, CHR 0x86],
         ''text-red-600 dark:text-red-500 drop-shadow-[0_0_8px_rgba(239,68,68,0.5)]'')
      else if jge b (Fin 250000000) then
        (''Sperm Whale'',
         [CHR 0xC3, CHR 0xB0, CHR 0xC5, CHR 0xB8, CHR 0xC2, CHR 0xB3],
         ''text-indigo-600 dark:text-indigo-400'')
      else if jge b (Fin 100000000) then
        (''Whale'',
         [CHR 0xC3, CHR 0xB0, CHR 0xC5, CHR 0xB8, CHR 0xE2, CHR 0x80, CHR 0xB9],
         ''text-blue-600 dark:text-blue-400'')
      else if jge b (Fin 50000000) then
        (''Orca'',
         [CHR 0xC3, CHR 0xB0, CHR 0xC5, CHR 0xB8, CHR 0xE2, CHR 0x80, CHR 0xB9],
         ''text-slate-900 dark:text-slate-100 drop-shadow-[0_0_5px_rgba(255,255,255,0.3)]'')
      else if jge b (Fin 25000000) then
        (''Shark'',
         [CHR 0xC3, CHR 0xB0, CHR 0xC5, CHR 0xB8, CHR 0xC2, CHR 0xA6, CHR 0xCB, CHR 0x86],
         ''text-slate-600 dark:text-slate-400'')
      else if jge b (Fin 10000000) then
        (''Dolphin'',
         [CHR 0xC3, CHR 0xB0, CHR 0xC5, CHR 0xB8, CHR 0xC2, CHR 0xAC],
         ''text-cyan-600 dark:text-cyan-400'')
      else if jge b (Fin 5000000) then
        (''Swordfish'',
         [CHR 0xC3, CHR 0xB0, CHR 0xC5, CHR 0xB8, CHR 0xC5, CHR 0xB8],
         ''text-sky-600 dark:text-sky-400'')
      else if jge b (Fin 1000000) then
        (''Turtle'',
         [CHR 0xC3, CHR 0xB0, CHR 0xC5, CHR 0xB8, CHR 0xC2, CHR 0xA2],
         ''text-emerald-600 dark:text-emerald-400'')
      else if jge b (Fin 500000) then
        (''Octopus'',
         [CHR 0xC3, CHR 0xB0, CHR 0xC5, CHR 0xB8, CHR 0xE2, CHR 0x84, CHR 0xA2],
         ''text-orange-600 dark:text-orange-400'')
      else if jge b (Fin 100000) then
        (''Crab'',
         [CHR 0xC3, CHR 0xB0, CHR 0xC5, CHR 0xB8, CHR 0xC2, CHR 0xA6, CHR 0xE2, CHR 0x82, CHR 0xAC],
         ''text-rose-500 dark:text-rose-400'')
      else if jge b (Fin 50000) then
        (''Shrimp'',
         [CHR 0xC3, CHR 0xB0, CHR 0xC5, CHR 0xB8, CHR 0xC2, CHR 0xA6],
         ''text-pink-500 dark:text-pink-400'')
      else if jge b (Fin 10000) then
        (''Plankton'',
         [CHR 0xC3, CHR 0xB0, CHR 0xC5, CHR 0xB8, CHR 0xC5, CHR 0x92, CHR 0xC2, CHR 0xBF],
         ''text-lime-600 dark:text-lime-400'')
      else
        (''Microbe'',
         [CHR 0xC3, CHR 0xB0, CHR 0xC5, CHR 0xB8, CHR 0xC2, CHR 0xA6, CHR 0xC2, CHR 0xA0],
         ''text-slate-500 dark:text-slate-500''))"

text \<open>\<^verbatim>\<open>metrics?.totalSupply || 65_000_000_000\<close>.\<close>

definition supplyBasisOf :: "TokenMetrics option \<Rightarrow> jsnum" where
  "supplyBasisOf m =
     (case m of
        None \<Rightarrow> Fin 65000000000
      | Some t \<Rightarrow> if numTruthy (totalSupply t) then totalSupply t else Fin 65000000000)"

text \<open>The body of \<^verbatim>\<open>sorted.map((h, index) => ...)\<close>.\<close>

definition mkHolder :: "jsnum \<Rightarrow> nat \<Rightarrow> RawHolding \<Rightarrow> Holder" where
  "mkHolder supplyBasis index h =
     (let known = KNOWN_WALLETS (raw_account h);
          (t, icon, colour) = tierOf (raw_balance h)
      in \<lparr> rank = index + 1,
           account = raw_account h,
           balance = raw_balance h,
           percentage = jmul (jdiv (raw_balance h) supplyBasis) (Fin 100),
           tier = t,
           tierIcon = icon,
           tierColor = colour,
           walletLabel = map_option fst known,
           walletType = map_option snd known \<rparr>)"

text \<open>
  The variable \<^verbatim>\<open>sorted\<close> of \<^verbatim>\<open>processResults\<close>: the holdings sorted, without the
  issuer's when \<^verbatim>\<open>excludeIssuer\<close> is set.
\<close>

definition sortedOf :: "bool \<Rightarrow> RawHolding list \<Rightarrow> RawHolding list" where
  "sortedOf excl rawHolders =
     (let sorted = sortBy byBalanceDesc rawHolders
      in if excl then filter (\<lambda>h. raw_account h \<noteq> ISSUER) sorted else sorted)"

text \<open>The list \<^verbatim>\<open>processed\<close>: one holder for each entry of \<^verbatim>\<open>sorted\<close>, with its index.\<close>

definition processed :: "bool \<Rightarrow> TokenMetrics option \<Rightarrow> RawHolding list \<Rightarrow> Holder list" where
  "processed excl m rawHolders =
     (let supplyBasis = supplyBasisOf m
      in map (\<lambda>(index, h). mkHolder supplyBasis index h)
           (enumerate 0 (sortedOf excl rawHolders)))"

section \<open>Application state\<close>

text \<open>
  The state of the component \<^verbatim>\<open>App\<close>: its \<^verbatim>\<open>useState\<close> cells and the ref
  \<^verbatim>\<open>abortControllerRef\<close>, which is \<^verbatim>\<open>null\<close> (\<open>None\<close>) or a controller whose signal is
  aborted or not. A date is a reading of the clock, in milliseconds.
\<close>

record App =
  holders :: "Holder list"
  lastUpdated :: "nat option"
  fetchStatus :: FetchStatus
  metrics :: "TokenMetrics option"
  excludeIssuer :: bool
  isLiveUpdate :: bool
  abortController :: "bool option"

definition initialApp :: App where
  "initialApp =
     \<lparr> holders = [], lastUpdated = None,
       fetchStatus = \<lparr> isFetching = False, linesFetched = 0, statusMessage = [],
                       error = None, complete = False \<rparr>,
       metrics = None, excludeIssuer = True, isLiveUpdate = False,
       abortController = None \<rparr>"

text \<open>
  A marker is a string or an object (kept by its content); the empty string is falsy.
  A batch is what \<^verbatim>\<open>fetchTrustlinesBatch\<close> resolves to. The service itself is not part
  of the sources: it is a parameter, a function from the marker sent to either the message
  of the error it rejects with or a batch.
\<close>

datatype marker = MString string | MObject string

fun markerTruthy :: "marker option \<Rightarrow> bool" where
  "markerTruthy None = False"
| "markerTruthy (Some (MString m)) = (m \<noteq> [])"
| "markerTruthy (Some (MObject m)) = True"

record Batch =
  lines :: "XRPLTrustline list"
  nextMarker :: "marker option"

type_synonym fetcher = "marker option \<Rightarrow> string + Batch"

text \<open>
  One activation of the asynchronous \<^verbatim>\<open>startScan\<close>, suspended at its \<^verbatim>\<open>await\<close>: the local
  variables of the loop, and \<open>render\<close>, the state of the render whose closure is running
  (\<^verbatim>\<open>excludeIssuer\<close>, \<^verbatim>\<open>metrics\<close>, \<^verbatim>\<open>holders\<close> and \<^verbatim>\<open>fetchStatus\<close> are read from it, while
  the updater functions and the ref see the current state).
\<close>

record Scan =
  render :: App
  allLines :: "RawHolding list"
  marker :: "marker option"
  isBackgroundUpdate :: bool

section \<open>The scan\<close>

text \<open>Decimal digits of a length, for the template literal of the progress message.\<close>

fun showNat :: "nat \<Rightarrow> string" where
  "showNat n =
     (if n < 10 then [char_of (48 + n)]
      else showNat (n div 10) @ [char_of (48 + n mod 10)])"

declare showNat.simps [simp del]

text \<open>The function mapped over \<^verbatim>\<open>batch.lines\<close>, and the filter after it.\<close>

definition toHolding :: "XRPLTrustline \<Rightarrow> RawHolding" where
  "toHolding line =
     (let rawBalance = parseFloat (line_balance line)
      in \<lparr> raw_account = line_account line,
           raw_balance = (if jlt rawBalance (Fin 0) then jabs rawBalance else Fin 0) \<rparr>)"

definition holdersBatch :: "XRPLTrustline list \<Rightarrow> RawHolding list" where
  "holdersBatch ls = filter (\<lambda>h. jgt (raw_balance h) (Fin 0)) (map toHolding ls)"

text \<open>The \<^verbatim>\<open>catch\<close> block of \<^verbatim>\<open>startScan\<close>, with the message of the error caught.\<close>

definition catchScan :: "string \<Rightarrow> App \<Rightarrow> App" where
  "catchScan msg s =
     s\<lparr> fetchStatus := (fetchStatus s)\<lparr> isFetching := False,
                                         statusMessage := ''Error during scan.'',
                                         error := Some msg \<rparr>,
        isLiveUpdate := False \<rparr>"

definition stopScan :: "App \<Rightarrow> App" where
  "stopScan s =
     (case abortController s of
        None \<Rightarrow> s
      | Some a \<Rightarrow>
          s\<lparr> abortController := Some True,
             fetchStatus := (fetchStatus s)\<lparr> isFetching := False,
                                              statusMessage := ''Scan stopped by user.'',
                                              complete := False \<rparr>,
             isLiveUpdate := False \<rparr>)"

text \<open>
  \<^verbatim>\<open>processResults\<close>, called from the closure of render \<open>r\<close> at clock reading \<open>now\<close>.
\<close>

definition processResults :: "App \<Rightarrow> RawHolding list \<Rightarrow> bool \<Rightarrow> nat \<Rightarrow> App \<Rightarrow> App" where
  "processResults r rawHolders bg now s =
     (let s1 = (if \<not> bg
                then s\<lparr> fetchStatus :=
                          (fetchStatus s)\<lparr> statusMessage := ''Processing rich list data...'' \<rparr> \<rparr>
                else s);
          out = processed (excludeIssuer r) (metrics r) rawHolders
      in s1\<lparr> holders := out,
             lastUpdated := Some now,
             fetchStatus := \<lparr> isFetching = False, linesFetched = length out,
                              statusMessage = ''Scan complete.'', error = None,
                              complete = True \<rparr> \<rparr>)"

text \<open>
  The head of the \<^verbatim>\<open>while\<close> loop: the check of the signal, which throws into the
  \<^verbatim>\<open>catch\<close> block, and otherwise the request of the next page, where the activation is
  suspended.
\<close>

definition loopHead :: "App \<Rightarrow> Scan \<Rightarrow> App \<times> Scan option" where
  "loopHead s sc =
     (if abortController s = Some True
      then (catchScan ''Scan aborted by user'' s, None)
      else (s, Some sc))"

text \<open>
  \<^verbatim>\<open>startScan\<close> up to its first \<^verbatim>\<open>await\<close>, called from the closure of render \<open>r\<close> in
  state \<open>s\<close>. A click calls it with the render of the current state.
\<close>

definition startScan :: "App \<Rightarrow> App \<Rightarrow> App \<times> Scan option" where
  "startScan r s =
     (if isFetching (fetchStatus r) then (s, None)
      else
        let bg = (0 < length (holders r));
            s1 = s\<lparr> fetchStatus :=
                       \<lparr> isFetching = True, linesFetched = 0,
                         statusMessage = (if bg then statusMessage (fetchStatus r)
                                          else ''Initializing connection to XRPL...''),
                         error = None, complete = False \<rparr>,
                    abortController := Some False \<rparr>
        in loopHead s1 \<lparr> render = r, allLines = [], marker = None,
                         isBackgroundUpdate = bg \<rparr>)"

text \<open>
  The rest of one turn of the loop, from the moment the awaited request settles to the
  next suspension or to the end of \<^verbatim>\<open>startScan\<close>.
\<close>

definition resumeScan :: "fetcher \<Rightarrow> nat \<Rightarrow> App \<times> Scan \<Rightarrow> App \<times> Scan option" where
  "resumeScan fetchTrustlinesBatch now c =
     (let (s, sc) = c
      in case fetchTrustlinesBatch (marker sc) of
           Inl msg \<Rightarrow> (catchScan msg s, None)
         | Inr batch \<Rightarrow>
             let all' = allLines sc @ holdersBatch (lines batch);
                 s1 = (if \<not> isBackgroundUpdate sc
                       then s\<lparr> fetchStatus :=
                                 (fetchStatus s)\<lparr> linesFetched := length all',
                                                  statusMessage :=
                                                    ''Scanning ledger... found ''
                                                    @ showNat (length all')
                                                    @ '' holders so far'' \<rparr> \<rparr>
                       else s)
             in if markerTruthy (nextMarker batch)
                then loopHead s1 (sc\<lparr> allLines := all', marker := nextMarker batch \<rparr>)
                else (processResults (render sc) all' (isBackgroundUpdate sc) now s1, None))"

text \<open>
  A whole scan against a ledger. The user may press stop while request number \<open>k\<close>
  (from 0) is in flight, \<open>stopAt = Some k\<close>. A ledger whose markers never end keeps the
  loop running: \<open>None\<close> is a scan that is still running when the fuel is used up.
  \<open>scanTrace\<close> lists the configurations at which the loop is suspended again.
\<close>

fun runScan :: "fetcher \<Rightarrow> nat option \<Rightarrow> nat \<Rightarrow> nat \<Rightarrow> nat \<Rightarrow> App \<times> Scan \<Rightarrow> App option" where
  "runScan fetch stopAt now 0 k c = None"
| "runScan fetch stopAt now (Suc n) k (s, sc) =
     (case resumeScan fetch now (if stopAt = Some k then stopScan s else s, sc) of
        (s2, None) \<Rightarrow> Some s2
      | (s2, Some sc2) \<Rightarrow> runScan fetch stopAt now n (Suc k) (s2, sc2))"

fun scanTrace :: "fetcher \<Rightarrow> nat option \<Rightarrow> nat \<Rightarrow> nat \<Rightarrow> nat \<Rightarrow> App \<times> Scan
                    \<Rightarrow> (App \<times> Scan) list" where
  "scanTrace fetch stopAt now 0 k c = []"
| "scanTrace fetch stopAt now (Suc n) k (s, sc) =
     (case resumeScan fetch now (if stopAt = Some k then stopScan s else s, sc) of
        (s2, None) \<Rightarrow> []
      | (s2, Some sc2) \<Rightarrow> (s2, sc2) # scanTrace fetch stopAt now n (Suc k) (s2, sc2))"

definition scan :: "fetcher \<Rightarrow> nat option \<Rightarrow> nat \<Rightarrow> nat \<Rightarrow> App \<Rightarrow> App option" where
  "scan fetch stopAt now fuel s =
     (case startScan s s of
        (s1, None) \<Rightarrow> Some s1
      | (s1, Some sc) \<Rightarrow> runScan fetch stopAt now fuel 0 (s1, sc))"

definition toggleExcludeIssuer :: "App \<Rightarrow> App" where
  "toggleExcludeIssuer s = s\<lparr> excludeIssuer := \<not> excludeIssuer s \<rparr>"

definition toggleLiveUpdate :: "App \<Rightarrow> App" where
  "toggleLiveUpdate s = s\<lparr> isLiveUpdate := \<not> isLiveUpdate s \<rparr>"

section \<open>Live update\<close>

text \<open>
  The timers of the host: each pending timeout has a handle, the clock reading at which
  it is due, and the render whose closure it will call. \<open>timeout\<close> is the variable of
  that name in the latest run of the effect (\<open>None\<close> while it is undefined).
\<close>

record Scheduler =
  pending :: "(nat \<times> nat \<times> App) list"
  timeout :: "nat option"
  nextHandle :: nat

definition initialScheduler :: Scheduler where
  "initialScheduler = \<lparr> pending = [], timeout = None, nextHandle = 0 \<rparr>"

definition clearTimeout :: "nat option \<Rightarrow> Scheduler \<Rightarrow> Scheduler" where
  "clearTimeout h q = q\<lparr> pending := filter (\<lambda>t. Some (fst t) \<noteq> h) (pending q) \<rparr>"

text \<open>
  One run of the live-update effect at clock reading \<open>now\<close>: the cleanup of the run
  before it, then the body, in the render of state \<open>s\<close>.
\<close>

definition liveUpdateEffect :: "nat \<Rightarrow> App \<times> Scheduler \<Rightarrow> (App \<times> Scan option) \<times> Scheduler" where
  "liveUpdateEffect now c =
     (let (s, q0) = c;
          q = (clearTimeout (timeout q0) q0)\<lparr> timeout := None \<rparr>
      in if isLiveUpdate s \<and> \<not> isFetching (fetchStatus s) then
           (if complete (fetchStatus s) then
              ((s, None),
               q\<lparr> pending := pending q @ [(nextHandle q, now + 10000, s)],
                  timeout := Some (nextHandle q),
                  nextHandle := nextHandle q + 1 \<rparr>)
            else if length (holders s) = 0 then (startScan s s, q)
            else ((s, None), q))
         else ((s, None), q))"

text \<open>The dependency array of the effect, and a commit: the effect runs when it changed.\<close>

definition liveDeps :: "App \<Rightarrow> bool \<times> bool \<times> bool \<times> nat" where
  "liveDeps s =
     (isLiveUpdate s, isFetching (fetchStatus s), complete (fetchStatus s), length (holders s))"

definition commit :: "nat \<Rightarrow> App \<Rightarrow> App \<times> Scheduler \<Rightarrow> (App \<times> Scan option) \<times> Scheduler" where
  "commit now prev c =
     (if liveDeps (fst c) = liveDeps prev then ((fst c, None), snd c)
      else liveUpdateEffect now c)"

text \<open>
  The host at clock reading \<open>now\<close>: the first pending timeout that is due is taken off
  the list and its callback, \<^verbatim>\<open>startScan\<close> of the render that armed it, is called.
\<close>

definition fireTimers :: "nat \<Rightarrow> App \<times> Scheduler \<Rightarrow> (App \<times> Scan option) \<times> Scheduler" where
  "fireTimers now c =
     (let (s, q) = c
      in case filter (\<lambda>t. fst (snd t) \<le> now) (pending q) of
           [] \<Rightarrow> ((s, None), q)
         | t # ts \<Rightarrow>
             (startScan (snd (snd t)) s,
              q\<lparr> pending := filter (\<lambda>u. fst u \<noteq> fst t) (pending q) \<rparr>))"

section \<open>Notions used by the properties\<close>

text \<open>The tiers from the lowest to the highest, and the place of a tier among them.\<close>

definition tierLadder :: "string list" where
  "tierLadder =
     [''Microbe'', ''Plankton'', ''Shrimp'', ''Crab'', ''Octopus'', ''Turtle'', ''Swordfish'',
      ''Dolphin'', ''Shark'', ''Orca'', ''Whale'', ''Sperm Whale'', ''Megalodon'', ''Kraken'']"

definition tierIndex :: "string \<Rightarrow> nat" where
  "tierIndex t = length (takeWhile (\<lambda>x. x \<noteq> t) tierLadder)"

text \<open>
  At most one timeout is pending, and it is the one the variable \<open>timeout\<close> of the
  latest run of the effect holds.
\<close>

definition oneTimer :: "Scheduler \<Rightarrow> bool" where
  "oneTimer q =
     (case pending q of
        [] \<Rightarrow> True
      | [t] \<Rightarrow> timeout q = Some (fst t)
      | t # u # ts \<Rightarrow> False)"

text \<open>A list of holdings whose balances never rise.\<close>

abbreviation descending :: "RawHolding list \<Rightarrow> bool" where
  "descending \<equiv> sorted_wrt (\<lambda>x y. jge (raw_balance x) (raw_balance y))"

text \<open>
  The holdings of the pages of a ledger, followed from a marker for at most \<open>n\<close>
  requests, up to the last page or to the first request that fails.
\<close>

fun pagesFrom :: "fetcher \<Rightarrow> nat \<Rightarrow> marker option \<Rightarrow> RawHolding list" where
  "pagesFrom fetch 0 m = []"
| "pagesFrom fetch (Suc n) m =
     (case fetch m of
        Inl e \<Rightarrow> []
      | Inr b \<Rightarrow>
          holdersBatch (lines b)
          @ (if markerTruthy (nextMarker b) then pagesFrom fetch n (nextMarker b) else []))"

text \<open>
  The loop fully succeeds within \<open>n\<close> requests from a marker: every request is answered
  and a page without a marker is reached. Then \<open>pagesFrom\<close> is the holdings of all the
  pages.
\<close>

fun loopSucceeds :: "fetcher \<Rightarrow> nat \<Rightarrow> marker option \<Rightarrow> bool" where
  "loopSucceeds fetch 0 m = False"
| "loopSucceeds fetch (Suc n) m =
     (case fetch m of
        Inl e \<Rightarrow> False
      | Inr b \<Rightarrow> if markerTruthy (nextMarker b) then loopSucceeds fetch n (nextMarker b)
                 else True)"

text \<open>
  The first \<open>j\<close> requests from a marker are answered, each with a page that has a marker:
  after each of them the loop comes back to its head.
\<close>

fun continues :: "fetcher \<Rightarrow> nat \<Rightarrow> marker option \<Rightarrow> bool" where
  "continues fetch 0 m = True"
| "continues fetch (Suc j) m =
     (case fetch m of
        Inl e \<Rightarrow> False
      | Inr b \<Rightarrow> markerTruthy (nextMarker b) \<and> continues fetch j (nextMarker b))"

section \<open>Fixtures\<close>

text \<open>Three holdings, two of them with the same balance.\<close>

definition tiedHoldings :: "RawHolding list" where
  "tiedHoldings =
     [\<lparr> raw_account = ''A'', raw_balance = Fin 100 \<rparr>,
      \<lparr> raw_account = ''B'', raw_balance = Fin 500 \<rparr>,
      \<lparr> raw_account = ''C'', raw_balance = Fin 100 \<rparr>]"

text \<open>
  A ledger of two pages: the first holds A with \<^verbatim>\<open>-500\<close> and B with \<^verbatim>\<open>300\<close> and has a
  marker, the second holds C with \<^verbatim>\<open>-100\<close> and has none. Any other marker is refused.
\<close>

definition twoPages :: fetcher where
  "twoPages m =
     (case m of
        None \<Rightarrow>
          Inr \<lparr> lines = [\<lparr> line_account = ''A'', line_balance = ''-500'' \<rparr>,
                          \<lparr> line_account = ''B'', line_balance = ''300'' \<rparr>],
                nextMarker = Some (MString ''page2'') \<rparr>
      | Some c \<Rightarrow>
          if c = MString ''page2''
          then Inr \<lparr> lines = [\<lparr> line_account = ''C'', line_balance = ''-100'' \<rparr>],
                     nextMarker = None \<rparr>
          else Inl ''unknown marker'')"

text \<open>
  A ledger that answers the first request as the ledger of two pages does and fails at the
  second; a ledger that cannot be reached; and a ledger without any trust line.
\<close>

definition brokenLedger :: fetcher where
  "brokenLedger m =
     (case m of
        None \<Rightarrow>
          Inr \<lparr> lines = [\<lparr> line_account = ''A'', line_balance = ''-500'' \<rparr>,
                          \<lparr> line_account = ''B'', line_balance = ''300'' \<rparr>],
                nextMarker = Some (MString ''page2'') \<rparr>
      | Some c \<Rightarrow> Inl ''Network error'')"

definition downLedger :: fetcher where
  "downLedger m = Inl ''Network error''"

definition emptyLedger :: fetcher where
  "emptyLedger m = Inr \<lparr> lines = [], nextMarker = None \<rparr>"

text \<open>
  The application before its first scan, with a supply of 1000 loaded and the issuer not
  excluded; and the same application after a scan of the two pages at clock reading 7.
\<close>

definition fixtureApp :: App where
  "fixtureApp = initialApp\<lparr> metrics := Some \<lparr> totalSupply = Fin 1000 \<rparr>,
                            excludeIssuer := False \<rparr>"

definition publishedApp :: App where
  "publishedApp =
     (case scan twoPages None 7 2 fixtureApp of Some s \<Rightarrow> s | None \<Rightarrow> fixtureApp)"

text \<open>
  The two applications just after \<^verbatim>\<open>startScan\<close>, with the activation that is
  suspended at the first request.
\<close>

definition firstApp :: App where
  "firstApp = fst (startScan fixtureApp fixtureApp)"

definition firstScan :: Scan where
  "firstScan = \<lparr> render = fixtureApp, allLines = [], marker = None,
                 isBackgroundUpdate = False \<rparr>"

definition rescanApp :: App where
  "rescanApp = fst (startScan publishedApp publishedApp)"

definition rescanScan :: Scan where
  "rescanScan = \<lparr> render = publishedApp, allLines = [], marker = None,
                  isBackgroundUpdate = True \<rparr>"

text \<open>Holdings with one entry of the issuer, and with two.\<close>

definition oneIssuer :: "RawHolding list" where
  "oneIssuer =
     [\<lparr> raw_account = ''A'', raw_balance = Fin 100 \<rparr>,
      \<lparr> raw_account = ISSUER, raw_balance = Fin 900 \<rparr>,
      \<lparr> raw_account = ''B'', raw_balance = Fin 500 \<rparr>]"

definition twoIssuers :: "RawHolding list" where
  "twoIssuers =
     [\<lparr> raw_account = ISSUER, raw_balance = Fin 900 \<rparr>,
      \<lparr> raw_account = ''A'', raw_balance = Fin 500 \<rparr>,
      \<lparr> raw_account = ISSUER, raw_balance = Fin 300 \<rparr>]"

text \<open>
  The application with live update switched on, before its first scan; and the same after
  a scan of the ledger without trust lines at clock reading 7, which is complete and has
  published an empty holder list.
\<close>

definition liveApp :: App where
  "liveApp = initialApp\<lparr> isLiveUpdate := True \<rparr>"

definition emptyDone :: App where
  "emptyDone =
     (case scan emptyLedger None 7 1 liveApp of Some s \<Rightarrow> s | None \<Rightarrow> liveApp)"

section \<open>Facts about numbers\<close>

lemma jge_Fin_Fin [simp]: "jge (Fin x) (Fin y) = (y \<le> x)"
  by (auto simp: jge_def)

lemma jge_NaN [simp]: "\<not> jge NaN b" "\<not> jge a NaN"
  by (simp_all add: jge_def)

lemma jgt_jsub: "a \<noteq> NaN \<Longrightarrow> b \<noteq> NaN \<Longrightarrow> jgt (jsub b a) (Fin 0) = jlt a b"
  by (cases a; cases b) (simp_all add: jgt_def)

lemma jge_total: "a \<noteq> NaN \<Longrightarrow> b \<noteq> NaN \<Longrightarrow> \<not> jlt a b \<Longrightarrow> jge a b"
  by (simp add: jge_def)

lemma jlt_jge: "jlt a b \<Longrightarrow> jge b a"
  by (cases a; cases b) (simp_all add: jge_def)

lemma jge_trans: "jge a b \<Longrightarrow> jge b c \<Longrightarrow> jge a c"
  by (cases a; cases b; cases c) (simp_all add: jge_def)

lemma jge_PInf_Fin [simp]: "jge PInf (Fin y)"
  by (simp add: jge_def)

lemma jge_NInf_Fin [simp]: "\<not> jge NInf (Fin y)"
  by (simp add: jge_def)

lemma jlt_irrefl: "\<not> jlt a a"
  by (cases a) simp_all

section \<open>Facts about the sort\<close>

lemma set_insertBy: "set (insertBy cmp x ys) = insert x (set ys)"
  by (induction ys) auto

lemma set_sortBy: "set (sortBy cmp xs) = set xs"
  by (induction xs) (simp_all add: sortBy_def set_insertBy)

lemma length_insertBy: "length (insertBy cmp x ys) = Suc (length ys)"
  by (induction ys) auto

lemma length_sortBy: "length (sortBy cmp xs) = length xs"
  by (induction xs) (simp_all add: sortBy_def length_insertBy)

lemma sortBy_Cons: "sortBy cmp (x # xs) = insertBy cmp x (sortBy cmp xs)"
  by (simp add: sortBy_def)

lemma sortBy_Nil: "sortBy cmp [] = []"
  by (simp add: sortBy_def)

lemma insertBy_descending:
  assumes "descending ys" "raw_balance x \<noteq> NaN" "\<forall>y\<in>set ys. raw_balance y \<noteq> NaN"
  shows "descending (insertBy byBalanceDesc x ys)"
  using assms
proof (induction ys)
  case Nil
  then show ?case by simp
next
  case (Cons y ys)
  have xy: "jgt (byBalanceDesc x y) (Fin 0) = jlt (raw_balance x) (raw_balance y)"
    using Cons.prems by (simp add: byBalanceDesc_def jgt_jsub)
  show ?case
  proof (cases "jlt (raw_balance x) (raw_balance y)")
    case True
    then have "jge (raw_balance y) (raw_balance x)" by (rule jlt_jge)
    with Cons True xy show ?thesis by (auto simp: set_insertBy)
  next
    case False
    then have "jge (raw_balance x) (raw_balance y)"
      using Cons.prems by (simp add: jge_total)
    with Cons.prems False xy show ?thesis by (auto intro: jge_trans)
  qed
qed

lemma sortBy_descending:
  "\<forall>y\<in>set xs. raw_balance y \<noteq> NaN \<Longrightarrow> descending (sortBy byBalanceDesc xs)"
  by (induction xs) (simp_all add: sortBy_Nil sortBy_Cons insertBy_descending set_sortBy)

lemma filter_insertBy:
  assumes "raw_balance x \<noteq> NaN" "\<forall>y\<in>set ys. raw_balance y \<noteq> NaN"
  shows "filter (\<lambda>h. raw_balance h = v) (insertBy byBalanceDesc x ys)
         = filter (\<lambda>h. raw_balance h = v) (x # ys)"
  using assms
proof (induction ys)
  case Nil
  then show ?case by simp
next
  case (Cons y ys)
  have xy: "jgt (byBalanceDesc x y) (Fin 0) = jlt (raw_balance x) (raw_balance y)"
    using Cons.prems by (simp add: byBalanceDesc_def jgt_jsub)
  show ?case
  proof (cases "jlt (raw_balance x) (raw_balance y)")
    case True
    then have "raw_balance x \<noteq> raw_balance y" using jlt_irrefl by metis
    with Cons True xy show ?thesis by auto
  next
    case False
    with xy show ?thesis by simp
  qed
qed

lemma sortBy_stable:
  "\<forall>y\<in>set xs. raw_balance y \<noteq> NaN \<Longrightarrow>
   filter (\<lambda>h. raw_balance h = v) (sortBy byBalanceDesc xs) = filter (\<lambda>h. raw_balance h = v) xs"
  by (induction xs) (simp_all add: sortBy_Nil sortBy_Cons filter_insertBy set_sortBy)

section \<open>Facts about the aggregation\<close>

lemma mkHolder_fields [simp]:
  "rank (mkHolder sb i h) = Suc i"
  "account (mkHolder sb i h) = raw_account h"
  "balance (mkHolder sb i h) = raw_balance h"
  "percentage (mkHolder sb i h) = jmul (jdiv (raw_balance h) sb) (Fin 100)"
  "tier (mkHolder sb i h) = fst (tierOf (raw_balance h))"
  by (simp_all add: mkHolder_def Let_def split: prod.splits)

lemma rank_enumerate:
  "map rank (map (\<lambda>(i, h). mkHolder sb i h) (enumerate n xs)) = [Suc n..<Suc (n + length xs)]"
proof (induction xs arbitrary: n)
  case Nil
  then show ?case by simp
next
  case (Cons x xs)
  have "[Suc n..<Suc (n + length (x # xs))] = Suc n # [Suc (Suc n)..<Suc (Suc n + length xs)]"
    by (subst upt_rec) simp
  with Cons [of "Suc n"] show ?case by simp
qed

lemma raw_enumerate:
  "map (\<lambda>h. (account h, balance h)) (map (\<lambda>(i, h). mkHolder sb i h) (enumerate n xs))
   = map (\<lambda>h. (raw_account h, raw_balance h)) xs"
  by (induction xs arbitrary: n) simp_all


lemma processed_eq:
  "processed excl m raw
   = map (\<lambda>(i, h). mkHolder (supplyBasisOf m) i h) (enumerate 0 (sortedOf excl raw))"
  by (simp add: processed_def)

lemma holders_processResults [simp]:
  "holders (processResults r raw bg now s) = processed (excludeIssuer r) (metrics r) raw"
  by (simp add: processResults_def Let_def)

lemma fetchStatus_processResults [simp]:
  "fetchStatus (processResults r raw bg now s)
   = \<lparr> isFetching = False, linesFetched = length (processed (excludeIssuer r) (metrics r) raw),
       statusMessage = ''Scan complete.'', error = None, complete = True \<rparr>"
  by (simp add: processResults_def Let_def)

lemma sortedOf_descending:
  assumes "\<forall>y\<in>set raw. raw_balance y \<noteq> NaN"
  shows "descending (sortedOf excl raw)"
  using sortBy_descending [OF assms] by (simp add: sortedOf_def Let_def sorted_wrt_filter)

lemma sortedOf_stable:
  assumes "\<forall>y\<in>set raw. raw_balance y \<noteq> NaN"
  shows "filter (\<lambda>h. raw_balance h = v) (sortedOf excl raw)
         = filter (\<lambda>h. raw_balance h = v)
             (if excl then filter (\<lambda>h. raw_account h \<noteq> ISSUER) raw else raw)"
proof (cases excl)
  case False
  then show ?thesis using sortBy_stable [OF assms] by (simp add: sortedOf_def Let_def)
next
  case True
  have "filter (\<lambda>h. raw_balance h = v) (filter (\<lambda>h. raw_account h \<noteq> ISSUER) (sortBy byBalanceDesc raw))
        = filter (\<lambda>h. raw_account h \<noteq> ISSUER) (filter (\<lambda>h. raw_balance h = v) (sortBy byBalanceDesc raw))"
    by (simp add: conj_commute)
  also have "\<dots> = filter (\<lambda>h. raw_account h \<noteq> ISSUER) (filter (\<lambda>h. raw_balance h = v) raw)"
    by (simp only: sortBy_stable [OF assms])
  also have "\<dots> = filter (\<lambda>h. raw_balance h = v) (filter (\<lambda>h. raw_account h \<noteq> ISSUER) raw)"
    by (simp add: conj_commute)
  finally show ?thesis using True by (simp add: sortedOf_def Let_def)
qed

lemma filter_enumerate_holders:
  "map (\<lambda>h. (account h, balance h))
     (filter (\<lambda>h. balance h = v) (map (\<lambda>(i, h). mkHolder sb i h) (enumerate n xs)))
   = map (\<lambda>h. (raw_account h, raw_balance h)) (filter (\<lambda>h. raw_balance h = v) xs)"
  by (induction xs arbitrary: n) simp_all

lemma balance_enumerate:
  "map balance (map (\<lambda>(i, h). mkHolder sb i h) (enumerate n xs)) = map raw_balance xs"
  by (induction xs arbitrary: n) simp_all

lemma length_processed: "length (processed excl m raw) = length (sortedOf excl raw)"
  by (simp add: processed_def)

section \<open>Ranking\<close>

text \<open>
  C1. For every list of raw holdings with numeric balances, the holder list that
  \<^verbatim>\<open>processResults\<close> publishes is sorted by balance, highest first; holders of one
  balance stand in the order of the input; the ranks are 1, 2, ..., N; and the list is
  computed from the raw holdings and the settings alone, whatever was published before.
\<close>

theorem C1_sorted_ranked:
  assumes numeric: "NaN \<notin> raw_balance ` set rawHolders"
  shows "sorted_wrt (\<lambda>x y. jge (balance x) (balance y))
           (holders (processResults r rawHolders bg now s))
         \<and> (\<forall>v. map (\<lambda>h. (account h, balance h))
                  (filter (\<lambda>h. balance h = v) (holders (processResults r rawHolders bg now s)))
                = map (\<lambda>h. (raw_account h, raw_balance h))
                    (filter (\<lambda>h. raw_balance h = v)
                       (if excludeIssuer r
                        then filter (\<lambda>h. raw_account h \<noteq> ISSUER) rawHolders
                        else rawHolders)))
         \<and> map rank (holders (processResults r rawHolders bg now s))
             = [1..<Suc (length (holders (processResults r rawHolders bg now s)))]
         \<and> (\<forall>bg' now' s'. holders (processResults r rawHolders bg' now' s')
                           = holders (processResults r rawHolders bg now s))"
proof -
  from numeric have ok: "\<forall>h\<in>set rawHolders. raw_balance h \<noteq> NaN"
    by force
  show ?thesis
  proof (intro conjI allI)
    let ?xs = "sortedOf (excludeIssuer r) rawHolders"
    have "sorted_wrt jge (map raw_balance ?xs)"
      using sortedOf_descending [OF ok] by (simp add: sorted_wrt_map)
    then have "sorted_wrt jge (map balance (processed (excludeIssuer r) (metrics r) rawHolders))"
      by (simp only: processed_eq balance_enumerate)
    then show "sorted_wrt (\<lambda>x y. jge (balance x) (balance y))
                 (holders (processResults r rawHolders bg now s))"
      by (simp add: sorted_wrt_map)
  next
    fix v
    show "map (\<lambda>h. (account h, balance h))
            (filter (\<lambda>h. balance h = v) (holders (processResults r rawHolders bg now s)))
          = map (\<lambda>h. (raw_account h, raw_balance h))
              (filter (\<lambda>h. raw_balance h = v)
                 (if excludeIssuer r
                  then filter (\<lambda>h. raw_account h \<noteq> ISSUER) rawHolders
                  else rawHolders))"
      by (simp only: holders_processResults processed_eq filter_enumerate_holders
            sortedOf_stable [OF ok])
  next
    show "map rank (holders (processResults r rawHolders bg now s))
          = [1..<Suc (length (holders (processResults r rawHolders bg now s)))]"
      by (simp only: holders_processResults processed_eq rank_enumerate length_map
            length_enumerate One_nat_def add_0)
  next
    fix bg' now' s'
    show "holders (processResults r rawHolders bg' now' s')
          = holders (processResults r rawHolders bg now s)"
      by simp
  qed
qed

theorem C1_witness:
  "NaN \<notin> raw_balance ` set tiedHoldings
   \<and> map rank (holders (processResults initialApp tiedHoldings False 0 initialApp))
       = [1..<Suc (length (holders (processResults initialApp tiedHoldings False 0 initialApp)))]"
proof -
  have h: "NaN \<notin> raw_balance ` set tiedHoldings"
    by (simp add: tiedHoldings_def)
  from C1_sorted_ranked [OF h, of initialApp False 0 initialApp] h show ?thesis
    by blast
qed

lemma tiedHoldings_ranked:
  "map (\<lambda>h. (account h, balance h, rank h))
     (holders (processResults initialApp tiedHoldings False 0 initialApp))
   = [(''B'', Fin 500, 1), (''A'', Fin 100, 2), (''C'', Fin 100, 3)]"
  by (simp add: tiedHoldings_def processed_def sortedOf_def sortBy_def byBalanceDesc_def
        jgt_def initialApp_def ISSUER_def Let_def)

section \<open>Tiers\<close>

lemma tierIndex_tierOf:
  "tierIndex (fst (tierOf b)) =
     (if jge b (Fin 1000000000) then 13
      else if jge b (Fin 500000000) then 12
      else if jge b (Fin 250000000) then 11
      else if jge b (Fin 100000000) then 10
      else if jge b (Fin 50000000) then 9
      else if jge b (Fin 25000000) then 8
      else if jge b (Fin 10000000) then 7
      else if jge b (Fin 5000000) then 6
      else if jge b (Fin 1000000) then 5
      else if jge b (Fin 500000) then 4
      else if jge b (Fin 100000) then 3
      else if jge b (Fin 50000) then 2
      else if jge b (Fin 10000) then 1
      else 0)"
  by (simp add: tierOf_def tierIndex_def tierLadder_def)

lemma tier_mono:
  assumes ab: "jge a b"
  shows "tierIndex (fst (tierOf b)) \<le> tierIndex (fst (tierOf a))"
proof (cases a)
  case NaN with ab show ?thesis by simp
next
  case NInf
  with ab show ?thesis by (cases b) (simp_all add: tierIndex_tierOf jge_def)
next
  case PInf
  then show ?thesis by (simp add: tierIndex_tierOf)
next
  case (Fin x)
  note a = this
  show ?thesis
  proof (cases b)
    case (Fin y)
    with a ab have "y \<le> x" by simp
    then show ?thesis unfolding a Fin tierIndex_tierOf by simp
  next
    case PInf with a ab show ?thesis by (simp add: jge_def)
  next
    case NaN with ab show ?thesis by simp
  next
    case NInf then show ?thesis by (simp add: tierIndex_tierOf)
  qed
qed

lemma tier_low: "jlt a (Fin 10000) \<Longrightarrow> fst (tierOf a) = ''Microbe''"
  by (cases a) (simp_all add: tierOf_def)

text \<open>
  C5. The tier of a holder is a function of its balance alone, read off the ladder of
  thirteen thresholds from the highest down. It is monotonic: of two balances
  \<open>a \<ge> b\<close>, the tier of \<open>a\<close> is never a lower one than the tier of \<open>b\<close>. A balance
  below 10,000 gets the lowest tier, Microbe.
\<close>

theorem C5_tier_monotonic:
  "tier (mkHolder sb i h) = fst (tierOf (raw_balance h))
   \<and> (jge a b \<longrightarrow> tierIndex (fst (tierOf b)) \<le> tierIndex (fst (tierOf a)))
   \<and> (jlt a (Fin 10000) \<longrightarrow> fst (tierOf a) = ''Microbe'' \<and> tierIndex (fst (tierOf a)) = 0)"
  by (simp add: tier_mono tier_low) (simp add: tierIndex_def tierLadder_def)

theorem C5_witness:
  "jge (Fin 600000) (Fin 20000)
   \<and> tierIndex (fst (tierOf (Fin 20000))) \<le> tierIndex (fst (tierOf (Fin 600000)))
   \<and> jlt (Fin 9999) (Fin 10000)
   \<and> fst (tierOf (Fin 9999)) = ''Microbe''"
proof -
  have h1: "jge (Fin 600000) (Fin 20000)" by simp
  have h2: "jlt (Fin 9999) (Fin 10000)" by simp
  from C5_tier_monotonic [of _ _ _ "Fin 600000" "Fin 20000"] h1
  have c1: "tierIndex (fst (tierOf (Fin 20000))) \<le> tierIndex (fst (tierOf (Fin 600000)))"
    by blast
  from C5_tier_monotonic [of _ _ _ "Fin 9999" "Fin 20000"] h2
  have c2: "fst (tierOf (Fin 9999)) = ''Microbe''"
    by blast
  from h1 h2 c1 c2 show ?thesis by blast
qed

section \<open>Facts about the scan\<close>

lemma stopScan_frame [simp]:
  "holders (stopScan s) = holders s"
  "lastUpdated (stopScan s) = lastUpdated s"
  "metrics (stopScan s) = metrics s"
  "excludeIssuer (stopScan s) = excludeIssuer s"
  by (simp_all add: stopScan_def split: option.splits)

lemma stopScan_complete: "complete (fetchStatus (stopScan s)) \<Longrightarrow> complete (fetchStatus s)"
  by (simp add: stopScan_def split: option.splits)

lemma catchScan_frame [simp]:
  "holders (catchScan msg s) = holders s"
  "lastUpdated (catchScan msg s) = lastUpdated s"
  "complete (fetchStatus (catchScan msg s)) = complete (fetchStatus s)"
  "error (fetchStatus (catchScan msg s)) = Some msg"
  "statusMessage (fetchStatus (catchScan msg s)) = ''Error during scan.''"
  "isFetching (fetchStatus (catchScan msg s)) = False"
  "linesFetched (fetchStatus (catchScan msg s)) = linesFetched (fetchStatus s)"
  "isLiveUpdate (catchScan msg s) = False"
  by (simp_all add: catchScan_def)

lemma lastUpdated_processResults [simp]:
  "lastUpdated (processResults r raw bg now s) = Some now"
  by (simp add: processResults_def Let_def)

lemma loopHead_aborted:
  "abortController s = Some True \<Longrightarrow> loopHead s sc = (catchScan ''Scan aborted by user'' s, None)"
  by (simp add: loopHead_def)

lemma loopHead_running:
  "loopHead s sc = (s', Some sc') \<Longrightarrow> s' = s \<and> sc' = sc \<and> abortController s \<noteq> Some True"
  by (simp add: loopHead_def split: if_splits)

lemma loopHead_end:
  "loopHead s sc = (s', None) \<Longrightarrow>
   s' = catchScan ''Scan aborted by user'' s \<and> abortController s = Some True"
  by (simp add: loopHead_def split: if_splits)

lemma resumeScan_running:
  assumes "resumeScan fetch now (s, sc) = (s', Some sc')"
  shows "\<exists>b. fetch (marker sc) = Inr b \<and> markerTruthy (nextMarker b)
           \<and> sc' = sc\<lparr> allLines := allLines sc @ holdersBatch (lines b), marker := nextMarker b \<rparr>
           \<and> s' = (if isBackgroundUpdate sc then s
                    else s\<lparr> fetchStatus := (fetchStatus s)
                            \<lparr> linesFetched := length (allLines sc @ holdersBatch (lines b)),
                              statusMessage := ''Scanning ledger... found ''
                                 @ showNat (length (allLines sc @ holdersBatch (lines b)))
                                 @ '' holders so far'' \<rparr> \<rparr>)
           \<and> abortController s \<noteq> Some True"
  using assms
  by (auto simp: resumeScan_def Let_def loopHead_def split: sum.splits if_splits)

lemma resumeScan_end:
  assumes "resumeScan fetch now (s, sc) = (s', None)"
  shows "(holders s' = holders s \<and> lastUpdated s' = lastUpdated s
          \<and> complete (fetchStatus s') = complete (fetchStatus s)
          \<and> statusMessage (fetchStatus s') = ''Error during scan.''
          \<and> error (fetchStatus s') \<noteq> None)
         \<or> (fetchStatus s' = \<lparr> isFetching = False, linesFetched = length (holders s'),
                                statusMessage = ''Scan complete.'', error = None,
                                complete = True \<rparr>
            \<and> lastUpdated s' = Some now
            \<and> (\<exists>b. fetch (marker sc) = Inr b \<and> \<not> markerTruthy (nextMarker b)
                  \<and> holders s' = processed (excludeIssuer (render sc)) (metrics (render sc))
                                    (allLines sc @ holdersBatch (lines b))))"
  using assms
  by (auto simp: resumeScan_def Let_def loopHead_def split: sum.splits if_splits)


lemma runScan_result:
  assumes "runScan fetch stopAt now n k (s, sc) = Some s'"
  shows "(holders s' = holders s \<and> lastUpdated s' = lastUpdated s
          \<and> (complete (fetchStatus s') \<longrightarrow> complete (fetchStatus s)))
         \<or> (fetchStatus s' = \<lparr> isFetching = False, linesFetched = length (holders s'),
                                statusMessage = ''Scan complete.'', error = None,
                                complete = True \<rparr>
            \<and> lastUpdated s' = Some now
            \<and> loopSucceeds fetch n (marker sc)
            \<and> holders s' = processed (excludeIssuer (render sc)) (metrics (render sc))
                              (allLines sc @ pagesFrom fetch n (marker sc)))"
  using assms
proof (induction n arbitrary: k s sc)
  case 0
  then show ?case by simp
next
  case (Suc n)
  define s1 where "s1 = (if stopAt = Some k then stopScan s else s)"
  have fr: "holders s1 = holders s" "lastUpdated s1 = lastUpdated s"
    "complete (fetchStatus s1) \<Longrightarrow> complete (fetchStatus s)"
    by (auto simp: s1_def dest: stopScan_complete split: if_splits)
  obtain s2 r where step: "resumeScan fetch now (s1, sc) = (s2, r)"
    by (cases "resumeScan fetch now (s1, sc)")
  show ?case
  proof (cases r)
    case None
    with step Suc.prems have "s' = s2" by (simp add: s1_def)
    with resumeScan_end [of fetch now s1 sc s2] step None fr show ?thesis
      by auto
  next
    case (Some sc2)
    with step Suc.prems have run: "runScan fetch stopAt now n (Suc k) (s2, sc2) = Some s'"
      by (simp add: s1_def)
    from resumeScan_running [of fetch now s1 sc s2 sc2] step Some
    obtain b where b: "fetch (marker sc) = Inr b" "markerTruthy (nextMarker b)"
      "sc2 = sc\<lparr> allLines := allLines sc @ holdersBatch (lines b), marker := nextMarker b \<rparr>"
      and s2: "holders s2 = holders s1" "lastUpdated s2 = lastUpdated s1"
        "complete (fetchStatus s2) = complete (fetchStatus s1)"
      by (auto split: if_splits)
    from Suc.IH [OF run] b s2 fr show ?thesis by auto
  qed
qed

lemma startScan_running:
  assumes "\<not> isFetching (fetchStatus r)"
  shows "startScan r s =
     (s\<lparr> fetchStatus :=
           \<lparr> isFetching = True, linesFetched = 0,
             statusMessage = (if 0 < length (holders r) then statusMessage (fetchStatus r)
                              else ''Initializing connection to XRPL...''),
             error = None, complete = False \<rparr>,
         abortController := Some False \<rparr>,
      Some \<lparr> render = r, allLines = [], marker = None,
             isBackgroundUpdate = (0 < length (holders r)) \<rparr>)"
  using assms by (simp add: startScan_def loopHead_def Let_def)

lemma startScan_busy: "isFetching (fetchStatus r) \<Longrightarrow> startScan r s = (s, None)"
  by (simp add: startScan_def)

lemma scan_result:
  assumes "scan fetch stopAt now n s = Some s'" "\<not> isFetching (fetchStatus s)"
  shows "(holders s' = holders s \<and> lastUpdated s' = lastUpdated s
          \<and> \<not> complete (fetchStatus s'))
         \<or> (fetchStatus s' = \<lparr> isFetching = False, linesFetched = length (holders s'),
                                statusMessage = ''Scan complete.'', error = None,
                                complete = True \<rparr>
            \<and> lastUpdated s' = Some now
            \<and> loopSucceeds fetch n None
            \<and> holders s' = processed (excludeIssuer s) (metrics s) (pagesFrom fetch n None))"
proof -
  from assms have "runScan fetch stopAt now n 0 (fst (startScan s s), the (snd (startScan s s))) = Some s'"
    by (simp add: scan_def startScan_running)
  from runScan_result [OF this [unfolded startScan_running [OF assms(2)] fst_conv snd_conv option.sel]]
  show ?thesis by auto
qed


lemma scanTrace_frame:
  "\<forall>c\<in>set (scanTrace fetch stopAt now n k (s, sc)).
     holders (fst c) = holders s \<and> lastUpdated (fst c) = lastUpdated s"
proof (induction n arbitrary: k s sc)
  case 0
  then show ?case by simp
next
  case (Suc n)
  define s1 where "s1 = (if stopAt = Some k then stopScan s else s)"
  have fr: "holders s1 = holders s" "lastUpdated s1 = lastUpdated s"
    by (simp_all add: s1_def)
  obtain s2 r where step: "resumeScan fetch now (s1, sc) = (s2, r)"
    by (cases "resumeScan fetch now (s1, sc)")
  show ?case
  proof (cases r)
    case None
    with step show ?thesis by (simp add: s1_def)
  next
    case (Some sc2)
    from resumeScan_running [of fetch now s1 sc s2 sc2] step Some
    have s2: "holders s2 = holders s1" "lastUpdated s2 = lastUpdated s1"
      by (auto split: if_splits)
    from Suc.IH [of "Suc k" s2 sc2] step Some s2 fr show ?thesis
      by (simp add: s1_def)
  qed
qed

lemma scanTrace_background:
  assumes "isBackgroundUpdate sc"
  shows "\<forall>c\<in>set (scanTrace fetch None now n k (s, sc)). fetchStatus (fst c) = fetchStatus s"
  using assms
proof (induction n arbitrary: k s sc)
  case 0
  then show ?case by simp
next
  case (Suc n)
  obtain s2 r where step: "resumeScan fetch now (s, sc) = (s2, r)"
    by (cases "resumeScan fetch now (s, sc)")
  show ?case
  proof (cases r)
    case None
    with step show ?thesis by simp
  next
    case (Some sc2)
    from resumeScan_running [of fetch now s sc s2 sc2] step Some Suc.prems
    have s2: "s2 = s" "isBackgroundUpdate sc2"
      by auto
    from Suc.IH [of sc2 "Suc k" s2] step Some s2 show ?thesis
      by simp
  qed
qed

lemma scanTrace_initial:
  assumes "\<not> isBackgroundUpdate sc" "i < length (scanTrace fetch None now n k (s, sc))"
  shows "allLines (snd (scanTrace fetch None now n k (s, sc) ! i))
           = allLines sc @ pagesFrom fetch (Suc i) (marker sc)
         \<and> linesFetched (fetchStatus (fst (scanTrace fetch None now n k (s, sc) ! i)))
           = length (allLines sc @ pagesFrom fetch (Suc i) (marker sc))
         \<and> statusMessage (fetchStatus (fst (scanTrace fetch None now n k (s, sc) ! i)))
           = ''Scanning ledger... found ''
             @ showNat (length (allLines sc @ pagesFrom fetch (Suc i) (marker sc)))
             @ '' holders so far''"
  using assms
proof (induction n arbitrary: k s sc i)
  case 0
  then show ?case by simp
next
  case (Suc n)
  obtain s2 r where step: "resumeScan fetch now (s, sc) = (s2, r)"
    by (cases "resumeScan fetch now (s, sc)")
  show ?case
  proof (cases r)
    case None
    with step Suc.prems show ?thesis by simp
  next
    case (Some sc2)
    from resumeScan_running [of fetch now s sc s2 sc2] step Some Suc.prems(1)
    obtain b where b: "fetch (marker sc) = Inr b" "markerTruthy (nextMarker b)"
      "sc2 = sc\<lparr> allLines := allLines sc @ holdersBatch (lines b), marker := nextMarker b \<rparr>"
      "s2 = s\<lparr> fetchStatus := (fetchStatus s)
                \<lparr> linesFetched := length (allLines sc @ holdersBatch (lines b)),
                  statusMessage := ''Scanning ledger... found ''
                     @ showNat (length (allLines sc @ holdersBatch (lines b)))
                     @ '' holders so far'' \<rparr> \<rparr>"
      by auto
    have tr: "scanTrace fetch None now (Suc n) k (s, sc)
              = (s2, sc2) # scanTrace fetch None now n (Suc k) (s2, sc2)"
      using step Some by simp
    show ?thesis
    proof (cases i)
      case 0
      with tr b show ?thesis by simp
    next
      case (Suc j)
      with Suc.prems(2) tr have j: "j < length (scanTrace fetch None now n (Suc k) (s2, sc2))"
        by simp
      have bg2: "\<not> isBackgroundUpdate sc2" using b Suc.prems(1) by simp
      from Suc.IH [OF bg2 j] b tr Suc show ?thesis by simp
    qed
  qed
qed

section \<open>The fixtures, evaluated\<close>

lemma holdersBatch_page1:
  "holdersBatch [\<lparr> line_account = ''A'', line_balance = ''-500'' \<rparr>,
                 \<lparr> line_account = ''B'', line_balance = ''300'' \<rparr>]
   = [\<lparr> raw_account = ''A'', raw_balance = Fin 500 \<rparr>]"
  by (simp add: holdersBatch_def toHolding_def parseFloat_def splitSign_def isWhiteSpace_def
        isDigit_def digitsVal_def exponentPart_def pow10_def jgt_def)

lemma holdersBatch_page2:
  "holdersBatch [\<lparr> line_account = ''C'', line_balance = ''-100'' \<rparr>]
   = [\<lparr> raw_account = ''C'', raw_balance = Fin 100 \<rparr>]"
  by (simp add: holdersBatch_def toHolding_def parseFloat_def splitSign_def isWhiteSpace_def
        isDigit_def digitsVal_def exponentPart_def pow10_def jgt_def)

lemma processed_AC:
  "map (\<lambda>h. (account h, balance h, rank h, percentage h))
     (processed False (Some \<lparr> totalSupply = Fin 1000 \<rparr>)
        [\<lparr> raw_account = ''A'', raw_balance = Fin 500 \<rparr>,
         \<lparr> raw_account = ''C'', raw_balance = Fin 100 \<rparr>])
   = [(''A'', Fin 500, 1, Fin 50), (''C'', Fin 100, 2, Fin 10)]"
  by (simp add: processed_def sortedOf_def sortBy_def byBalanceDesc_def jgt_def
        supplyBasisOf_def numTruthy_def Let_def)

lemma pagesFrom_twoPages:
  "pagesFrom twoPages (Suc (Suc n)) None
   = [\<lparr> raw_account = ''A'', raw_balance = Fin 500 \<rparr>,
      \<lparr> raw_account = ''C'', raw_balance = Fin 100 \<rparr>]"
  by (simp add: twoPages_def holdersBatch_page1 holdersBatch_page2)

lemma twoPages_scan:
  "scan twoPages None now (Suc (Suc n)) fixtureApp =
     Some (fixtureApp\<lparr>
       holders := processed False (Some \<lparr> totalSupply = Fin 1000 \<rparr>)
                    [\<lparr> raw_account = ''A'', raw_balance = Fin 500 \<rparr>,
                     \<lparr> raw_account = ''C'', raw_balance = Fin 100 \<rparr>],
       lastUpdated := Some now,
       fetchStatus := \<lparr> isFetching = False, linesFetched = 2,
                        statusMessage = ''Scan complete.'', error = None, complete = True \<rparr>,
       abortController := Some False \<rparr>)"
  by (simp add: scan_def startScan_def loopHead_def resumeScan_def twoPages_def
        holdersBatch_page1 holdersBatch_page2 processResults_def fixtureApp_def initialApp_def
        Let_def length_processed sortedOf_def length_sortBy)


lemma publishedApp_eq:
  "publishedApp = fixtureApp\<lparr>
       holders := processed False (Some \<lparr> totalSupply = Fin 1000 \<rparr>)
                    [\<lparr> raw_account = ''A'', raw_balance = Fin 500 \<rparr>,
                     \<lparr> raw_account = ''C'', raw_balance = Fin 100 \<rparr>],
       lastUpdated := Some 7,
       fetchStatus := \<lparr> isFetching = False, linesFetched = 2,
                        statusMessage = ''Scan complete.'', error = None, complete = True \<rparr>,
       abortController := Some False \<rparr>"
  using twoPages_scan [of 7 0] by (simp add: publishedApp_def numeral_2_eq_2)

lemma publishedApp_fields:
  "length (holders publishedApp) = 2"
  "fetchStatus publishedApp = \<lparr> isFetching = False, linesFetched = 2,
                        statusMessage = ''Scan complete.'', error = None, complete = True \<rparr>"
  "lastUpdated publishedApp = Some 7"
  "excludeIssuer publishedApp = False"
  "metrics publishedApp = Some \<lparr> totalSupply = Fin 1000 \<rparr>"
  "isLiveUpdate publishedApp = False"
  by (simp_all add: publishedApp_eq length_processed sortedOf_def length_sortBy fixtureApp_def
        initialApp_def)

lemma fixtureApp_fields:
  "holders fixtureApp = []"
  "fetchStatus fixtureApp = \<lparr> isFetching = False, linesFetched = 0,
                        statusMessage = [], error = None, complete = False \<rparr>"
  "lastUpdated fixtureApp = None"
  "excludeIssuer fixtureApp = False"
  "metrics fixtureApp = Some \<lparr> totalSupply = Fin 1000 \<rparr>"
  "isLiveUpdate fixtureApp = False"
  "abortController fixtureApp = None"
  by (simp_all add: fixtureApp_def initialApp_def)

lemma stopped_first_scan:
  "scan twoPages (Some 0) now (Suc n) fixtureApp =
     Some (fixtureApp\<lparr>
       fetchStatus := \<lparr> isFetching = False, linesFetched = 1,
                        statusMessage = ''Error during scan.'',
                        error = Some ''Scan aborted by user'', complete = False \<rparr>,
       abortController := Some True \<rparr>)"
  by (simp add: scan_def startScan_def loopHead_def resumeScan_def twoPages_def stopScan_def
        catchScan_def holdersBatch_page1 fixtureApp_def initialApp_def Let_def)

lemma stopped_rescan:
  "scan twoPages (Some 0) now (Suc n) publishedApp =
     Some (publishedApp\<lparr>
       fetchStatus := \<lparr> isFetching = False, linesFetched = 0,
                        statusMessage = ''Error during scan.'',
                        error = Some ''Scan aborted by user'', complete = False \<rparr>,
       abortController := Some True \<rparr>)"
  by (simp add: scan_def startScan_def loopHead_def resumeScan_def twoPages_def stopScan_def
        catchScan_def holdersBatch_page1 publishedApp_fields Let_def)

lemma failed_scan:
  "scan downLedger None now (Suc n) fixtureApp =
     Some (fixtureApp\<lparr>
       fetchStatus := \<lparr> isFetching = False, linesFetched = 0,
                        statusMessage = ''Error during scan.'',
                        error = Some ''Network error'', complete = False \<rparr>,
       abortController := Some False \<rparr>)"
  by (simp add: scan_def startScan_def loopHead_def resumeScan_def downLedger_def
        catchScan_def fixtureApp_def initialApp_def Let_def)

text \<open>
  A stop pressed while the last request is in flight is never seen by the loop, which
  does not come back to its head: the scan ends complete, with all the pages.
\<close>

lemma stopped_too_late:
  "map_option (\<lambda>s. (map account (holders s), statusMessage (fetchStatus s)))
     (scan twoPages (Some 1) now (Suc (Suc n)) fixtureApp)
   = Some ([''A'', ''C''], ''Scan complete.'')"
  by (simp add: scan_def startScan_def loopHead_def resumeScan_def twoPages_def stopScan_def
        holdersBatch_page1 holdersBatch_page2 processResults_def fixtureApp_def initialApp_def
        Let_def processed_def sortedOf_def sortBy_def byBalanceDesc_def jgt_def)

section \<open>The two-page scenario\<close>

text \<open>
  C4. With a supply basis of 1000 and the issuer not excluded, a scan of the ledger of
  two pages (A with \<^verbatim>\<open>-500\<close> and B with \<^verbatim>\<open>300\<close>, then C with \<^verbatim>\<open>-100\<close>) ends, for every
  fuel of two pages or more, with exactly the holders A (balance 500, rank 1, 50 percent)
  and C (balance 100, rank 2, 10 percent); B, whose balance is not negative, is dropped.
\<close>

theorem C4_two_page_fixture:
  "supplyBasisOf (metrics fixtureApp) = Fin 1000
   \<and> excludeIssuer fixtureApp = False
   \<and> map_option (\<lambda>s. map (\<lambda>h. (account h, balance h, rank h, percentage h)) (holders s))
        (scan twoPages None now (Suc (Suc n)) fixtureApp)
     = Some [(''A'', Fin 500, 1, Fin 50), (''C'', Fin 100, 2, Fin 10)]"
  by (simp add: twoPages_scan processed_AC fixtureApp_fields supplyBasisOf_def numTruthy_def)

section \<open>Cancellation and failure\<close>

text \<open>
  C3. The claim is that a scan whose loop detects the cancellation signal ends in an
  aborted state that differs from the state after a failed request, with no error detail.
  The code does otherwise. When the user stops the scan of the two pages while the first
  request is in flight, \<^verbatim>\<open>stopScan\<close> writes the message of a stopped scan with no error,
  and the loop then throws into the \<^verbatim>\<open>catch\<close> block that serves failed requests: the
  final status carries the message of a failure and records the cancellation as its error
  detail, as the scan of a ledger that cannot be reached does.
\<close>

theorem C3_abort_reported_as_error:
  "map_option fetchStatus (scan twoPages (Some 0) 7 2 fixtureApp)
     = Some \<lparr> isFetching = False, linesFetched = 1, statusMessage = ''Error during scan.'',
              error = Some ''Scan aborted by user'', complete = False \<rparr>
   \<and> map_option fetchStatus (scan downLedger None 7 2 fixtureApp)
     = Some \<lparr> isFetching = False, linesFetched = 0, statusMessage = ''Error during scan.'',
              error = Some ''Network error'', complete = False \<rparr>
   \<and> fetchStatus (stopScan (fst (startScan fixtureApp fixtureApp)))
     = \<lparr> isFetching = False, linesFetched = 0, statusMessage = ''Scan stopped by user.'',
         error = None, complete = False \<rparr>"
  using stopped_first_scan [of 7 "Suc 0"] failed_scan [of 7 "Suc 0"]
  by (simp add: numeral_2_eq_2 startScan_def loopHead_def stopScan_def fixtureApp_fields Let_def)

section \<open>More facts about the scan\<close>

lemma holdersBatch_positive: "\<forall>h\<in>set (holdersBatch ls). jgt (raw_balance h) (Fin 0)"
  by (simp add: holdersBatch_def)

lemma pagesFrom_positive: "\<forall>h\<in>set (pagesFrom fetch n m). jgt (raw_balance h) (Fin 0)"
  by (induction n arbitrary: m) (auto simp: holdersBatch_positive split: sum.splits)

lemma toHolding_NaN:
  "parseFloat (line_balance l) = NaN \<Longrightarrow> raw_balance (toHolding l) = Fin 0"
  by (simp add: toHolding_def Let_def)

lemma holdersBatch_drop_malformed:
  assumes "parseFloat (line_balance l) = NaN"
  shows "holdersBatch (xs @ l # ys) = holdersBatch (xs @ ys)"
  using toHolding_NaN [OF assms] by (simp add: holdersBatch_def jgt_def)

lemma parse_garbage: "parseFloat ''n/a'' = NaN"
  by (simp add: parseFloat_def splitSign_def isWhiteSpace_def isDigit_def)

lemma parse_minus500: "parseFloat ''-500'' = Fin (- 500)"
  by (simp add: parseFloat_def splitSign_def isWhiteSpace_def isDigit_def digitsVal_def
        exponentPart_def pow10_def)

lemma parse_300: "parseFloat ''300'' = Fin 300"
  by (simp add: parseFloat_def splitSign_def isWhiteSpace_def isDigit_def digitsVal_def
        exponentPart_def pow10_def)

lemma resumeScan_end_idle:
  "resumeScan fetch now (s, sc) = (s', None) \<Longrightarrow> \<not> isFetching (fetchStatus s')"
  by (auto simp: resumeScan_def Let_def loopHead_def split: sum.splits if_splits)

lemma runScan_idle:
  "runScan fetch stopAt now n k (s, sc) = Some s' \<Longrightarrow> \<not> isFetching (fetchStatus s')"
proof (induction n arbitrary: k s sc)
  case 0
  then show ?case by simp
next
  case (Suc n)
  obtain s2 r where step:
    "resumeScan fetch now (if stopAt = Some k then stopScan s else s, sc) = (s2, r)"
    by (cases "resumeScan fetch now (if stopAt = Some k then stopScan s else s, sc)")
  show ?case
  proof (cases r)
    case None
    with step Suc.prems have "s' = s2" by simp
    with resumeScan_end_idle step None show ?thesis by blast
  next
    case (Some sc2)
    with step Suc.prems have "runScan fetch stopAt now n (Suc k) (s2, sc2) = Some s'" by simp
    then show ?thesis by (rule Suc.IH)
  qed
qed

section \<open>From trust lines to holdings\<close>

lemma jabs_positive: "jlt a (Fin 0) \<Longrightarrow> jgt (jabs a) (Fin 0)"
  by (cases a) (simp_all add: jgt_def)

lemma holdersBatch_negative_lines:
  "holdersBatch ls
   = map (\<lambda>l. \<lparr> raw_account = line_account l,
                 raw_balance = jabs (parseFloat (line_balance l)) \<rparr>)
       (filter (\<lambda>l. jlt (parseFloat (line_balance l)) (Fin 0)) ls)"
proof (induction ls)
  case Nil
  then show ?case by (simp add: holdersBatch_def)
next
  case (Cons l ls)
  then have ih: "filter (\<lambda>h. jgt (raw_balance h) (Fin 0)) (map toHolding ls)
     = map (\<lambda>l. \<lparr> raw_account = line_account l,
                   raw_balance = jabs (parseFloat (line_balance l)) \<rparr>)
         (filter (\<lambda>l. jlt (parseFloat (line_balance l)) (Fin 0)) ls)"
    by (simp add: holdersBatch_def)
  show ?case
  proof (cases "jlt (parseFloat (line_balance l)) (Fin 0)")
    case True
    with jabs_positive [OF True] ih show ?thesis
      by (simp add: holdersBatch_def toHolding_def Let_def)
  next
    case False
    with ih show ?thesis
      by (simp add: holdersBatch_def toHolding_def Let_def jgt_def)
  qed
qed

lemma holdersBatch_keeps:
  assumes "l \<in> set ls" "jlt (parseFloat (line_balance l)) (Fin 0)"
  shows "toHolding l \<in> set (holdersBatch ls)"
  using assms jabs_positive [OF assms(2)]
  by (auto simp: holdersBatch_def toHolding_def Let_def)

lemma resumeScan_more:
  assumes "fetch (marker sc) = Inr b" "markerTruthy (nextMarker b)"
    "abortController s \<noteq> Some True"
  shows "snd (resumeScan fetch now (s, sc))
         = Some (sc\<lparr> allLines := allLines sc @ holdersBatch (lines b),
                     marker := nextMarker b \<rparr>)"
  using assms by (simp add: resumeScan_def Let_def loopHead_def)

lemma resumeScan_last:
  assumes "fetch (marker sc) = Inr b" "\<not> markerTruthy (nextMarker b)"
  shows "resumeScan fetch now (s, sc)
         = (processResults (render sc) (allLines sc @ holdersBatch (lines b))
              (isBackgroundUpdate sc) now
              (if isBackgroundUpdate sc then s
               else s\<lparr> fetchStatus := (fetchStatus s)
                       \<lparr> linesFetched := length (allLines sc @ holdersBatch (lines b)),
                         statusMessage := ''Scanning ledger... found ''
                            @ showNat (length (allLines sc @ holdersBatch (lines b)))
                            @ '' holders so far'' \<rparr> \<rparr>), None)"
  using assms by (simp add: resumeScan_def Let_def)

text \<open>
  C6. A trust line becomes a holding with the magnitude of its balance when the parsed
  balance is negative, and with balance zero otherwise. The holdings of a page are exactly
  its lines with a negative balance, in their order, each with the magnitude of its
  balance: every such line is kept, and every holding that is kept has a balance above
  zero. What is kept is what the loop accumulates and, after the last page, what is
  aggregated. A balance that does not parse (\<^verbatim>\<open>parseFloat\<close> gives NaN) becomes zero and
  is filtered out: the turn of the loop that meets such a line ends exactly as if the line
  were not on the page, so it never aborts the scan.
\<close>

theorem C6_mapping:
  "raw_account (toHolding l) = line_account l
   \<and> (jlt (parseFloat (line_balance l)) (Fin 0)
        \<longrightarrow> raw_balance (toHolding l) = jabs (parseFloat (line_balance l)))
   \<and> (\<not> jlt (parseFloat (line_balance l)) (Fin 0) \<longrightarrow> raw_balance (toHolding l) = Fin 0)
   \<and> holdersBatch ls
       = map (\<lambda>l. \<lparr> raw_account = line_account l,
                     raw_balance = jabs (parseFloat (line_balance l)) \<rparr>)
           (filter (\<lambda>l. jlt (parseFloat (line_balance l)) (Fin 0)) ls)
   \<and> (l \<in> set ls \<and> jlt (parseFloat (line_balance l)) (Fin 0)
        \<longrightarrow> toHolding l \<in> set (holdersBatch ls))
   \<and> (\<forall>h\<in>set (holdersBatch ls). jgt (raw_balance h) (Fin 0))
   \<and> (\<forall>h\<in>set (pagesFrom fetch n m). jgt (raw_balance h) (Fin 0))
   \<and> (fetch (marker sc) = Inr b \<and> markerTruthy (nextMarker b)
        \<and> abortController s \<noteq> Some True
        \<longrightarrow> snd (resumeScan fetch now (s, sc))
            = Some (sc\<lparr> allLines := allLines sc @ holdersBatch (lines b),
                        marker := nextMarker b \<rparr>))
   \<and> (fetch (marker sc) = Inr b \<and> \<not> markerTruthy (nextMarker b)
        \<longrightarrow> holders (fst (resumeScan fetch now (s, sc)))
            = processed (excludeIssuer (render sc)) (metrics (render sc))
                (allLines sc @ holdersBatch (lines b)))
   \<and> (parseFloat (line_balance l) = NaN
        \<longrightarrow> raw_balance (toHolding l) = Fin 0
            \<and> holdersBatch (xs @ l # ys) = holdersBatch (xs @ ys)
            \<and> (fetch (marker sc) = Inr \<lparr> lines = xs @ l # ys, nextMarker = nm \<rparr>
                 \<longrightarrow> resumeScan fetch now (s, sc)
                     = resumeScan (\<lambda>m. Inr \<lparr> lines = xs @ ys, nextMarker = nm \<rparr>) now (s, sc)))"
proof (intro conjI impI)
  show "holdersBatch ls
       = map (\<lambda>l. \<lparr> raw_account = line_account l,
                     raw_balance = jabs (parseFloat (line_balance l)) \<rparr>)
           (filter (\<lambda>l. jlt (parseFloat (line_balance l)) (Fin 0)) ls)"
    by (rule holdersBatch_negative_lines)
next
  assume "l \<in> set ls \<and> jlt (parseFloat (line_balance l)) (Fin 0)"
  then show "toHolding l \<in> set (holdersBatch ls)"
    by (simp add: holdersBatch_keeps)
next
  assume "fetch (marker sc) = Inr b \<and> markerTruthy (nextMarker b)
          \<and> abortController s \<noteq> Some True"
  then show "snd (resumeScan fetch now (s, sc))
            = Some (sc\<lparr> allLines := allLines sc @ holdersBatch (lines b),
                        marker := nextMarker b \<rparr>)"
    by (simp add: resumeScan_more)
next
  assume "fetch (marker sc) = Inr b \<and> \<not> markerTruthy (nextMarker b)"
  then show "holders (fst (resumeScan fetch now (s, sc)))
            = processed (excludeIssuer (render sc)) (metrics (render sc))
                (allLines sc @ holdersBatch (lines b))"
    by (simp add: resumeScan_last)
next
  assume nan: "parseFloat (line_balance l) = NaN"
  assume f: "fetch (marker sc) = Inr \<lparr> lines = xs @ l # ys, nextMarker = nm \<rparr>"
  show "resumeScan fetch now (s, sc)
        = resumeScan (\<lambda>m. Inr \<lparr> lines = xs @ ys, nextMarker = nm \<rparr>) now (s, sc)"
    using f holdersBatch_drop_malformed [OF nan, of xs ys]
    by (simp add: resumeScan_def Let_def)
qed (simp_all add: toHolding_def Let_def holdersBatch_positive pagesFrom_positive
       holdersBatch_drop_malformed)

theorem C6_witness:
  "jlt (parseFloat (line_balance \<lparr> line_account = ''A'', line_balance = ''-500'' \<rparr>)) (Fin 0)
   \<and> raw_balance (toHolding \<lparr> line_account = ''A'', line_balance = ''-500'' \<rparr>)
       = jabs (parseFloat (line_balance \<lparr> line_account = ''A'', line_balance = ''-500'' \<rparr>))
   \<and> \<lparr> line_account = ''A'', line_balance = ''-500'' \<rparr>
       \<in> set [\<lparr> line_account = ''X'', line_balance = ''n/a'' \<rparr>,
               \<lparr> line_account = ''A'', line_balance = ''-500'' \<rparr>,
               \<lparr> line_account = ''B'', line_balance = ''300'' \<rparr>]
   \<and> toHolding \<lparr> line_account = ''A'', line_balance = ''-500'' \<rparr>
       \<in> set (holdersBatch [\<lparr> line_account = ''X'', line_balance = ''n/a'' \<rparr>,
                             \<lparr> line_account = ''A'', line_balance = ''-500'' \<rparr>,
                             \<lparr> line_account = ''B'', line_balance = ''300'' \<rparr>])
   \<and> toHolding \<lparr> line_account = ''A'', line_balance = ''-500'' \<rparr>
       = \<lparr> raw_account = ''A'', raw_balance = Fin 500 \<rparr>
   \<and> \<not> jlt (parseFloat (line_balance \<lparr> line_account = ''B'', line_balance = ''300'' \<rparr>)) (Fin 0)
   \<and> raw_balance (toHolding \<lparr> line_account = ''B'', line_balance = ''300'' \<rparr>) = Fin 0
   \<and> parseFloat (line_balance \<lparr> line_account = ''X'', line_balance = ''n/a'' \<rparr>) = NaN
   \<and> holdersBatch ([\<lparr> line_account = ''A'', line_balance = ''-500'' \<rparr>]
                    @ \<lparr> line_account = ''X'', line_balance = ''n/a'' \<rparr> # [])
       = holdersBatch ([\<lparr> line_account = ''A'', line_balance = ''-500'' \<rparr>] @ [])
   \<and> twoPages (marker firstScan)
       = Inr \<lparr> lines = [\<lparr> line_account = ''A'', line_balance = ''-500'' \<rparr>,
                         \<lparr> line_account = ''B'', line_balance = ''300'' \<rparr>],
               nextMarker = Some (MString ''page2'') \<rparr>
   \<and> markerTruthy (Some (MString ''page2''))
   \<and> abortController firstApp \<noteq> Some True
   \<and> map_option allLines (snd (resumeScan twoPages 9 (firstApp, firstScan)))
       = Some [\<lparr> raw_account = ''A'', raw_balance = Fin 500 \<rparr>]"
proof -
  let ?a = "\<lparr> line_account = ''A'', line_balance = ''-500'' \<rparr>"
  let ?b = "\<lparr> line_account = ''B'', line_balance = ''300'' \<rparr>"
  let ?x = "\<lparr> line_account = ''X'', line_balance = ''n/a'' \<rparr>"
  let ?page = "\<lparr> lines = [?a, ?b], nextMarker = Some (MString ''page2'') \<rparr>"
  have h1: "jlt (parseFloat (line_balance ?a)) (Fin 0)" by (simp add: parse_minus500)
  have h2: "\<not> jlt (parseFloat (line_balance ?b)) (Fin 0)" by (simp add: parse_300)
  have h3: "parseFloat (line_balance ?x) = NaN" by (simp add: parse_garbage)
  have h4: "?a \<in> set [?x, ?a, ?b]" by simp
  have h5: "twoPages (marker firstScan) = Inr ?page"
    by (simp add: twoPages_def firstScan_def)
  have h6: "markerTruthy (Some (MString ''page2''))" by simp
  have h7: "abortController firstApp \<noteq> Some True"
    by (simp add: firstApp_def startScan_running fixtureApp_fields)
  from C6_mapping [where l = ?a] h1
  have c1: "raw_balance (toHolding ?a) = jabs (parseFloat (line_balance ?a))" by blast
  from C6_mapping [where l = ?a and ls = "[?x, ?a, ?b]"] h1 h4
  have c2: "toHolding ?a \<in> set (holdersBatch [?x, ?a, ?b])" by blast
  have c3: "toHolding ?a = \<lparr> raw_account = ''A'', raw_balance = Fin 500 \<rparr>"
    by (simp add: toHolding_def parse_minus500)
  from C6_mapping [where l = ?b] h2
  have c4: "raw_balance (toHolding ?b) = Fin 0" by blast
  from C6_mapping [where l = ?x and xs = "[?a]" and ys = "[]"] h3
  have c5: "holdersBatch ([?a] @ ?x # []) = holdersBatch ([?a] @ [])" by blast
  from C6_mapping [where fetch = twoPages and sc = firstScan and b = ?page
      and s = firstApp and now = 9] h5 h6 h7
  have "snd (resumeScan twoPages 9 (firstApp, firstScan))
        = Some (firstScan\<lparr> allLines := allLines firstScan @ holdersBatch (lines ?page),
                           marker := nextMarker ?page \<rparr>)"
    by simp
  then have c6: "map_option allLines (snd (resumeScan twoPages 9 (firstApp, firstScan)))
                 = Some [\<lparr> raw_account = ''A'', raw_balance = Fin 500 \<rparr>]"
    by (simp add: firstScan_def holdersBatch_page1)
  from h1 c1 h4 c2 c3 h2 c4 h3 c5 h5 h6 h7 c6 show ?thesis by blast
qed

section \<open>No partial publication\<close>

lemma stopScan_aborts:
  "abortController s \<noteq> None \<Longrightarrow> abortController (stopScan s) = Some True"
  by (auto simp: stopScan_def split: option.splits)

lemma resumeScan_aborted:
  assumes "fetch (marker sc) = Inr b" "markerTruthy (nextMarker b)"
    "abortController s = Some True"
  shows "\<exists>s'. resumeScan fetch now (s, sc) = (s', None)
              \<and> holders s' = holders s \<and> lastUpdated s' = lastUpdated s
              \<and> error (fetchStatus s') = Some ''Scan aborted by user''
              \<and> complete (fetchStatus s') = complete (fetchStatus s)"
  using assms by (simp add: resumeScan_def Let_def loopHead_def)

lemma resumeScan_goes_on:
  assumes "fetch (marker sc) = Inr b" "markerTruthy (nextMarker b)"
    "abortController s = Some False"
  shows "\<exists>s2 sc2. resumeScan fetch now (s, sc) = (s2, Some sc2)
              \<and> marker sc2 = nextMarker b
              \<and> holders s2 = holders s \<and> lastUpdated s2 = lastUpdated s
              \<and> abortController s2 = Some False
              \<and> complete (fetchStatus s2) = complete (fetchStatus s)"
  using assms by (simp add: resumeScan_def Let_def loopHead_def)

lemma runScan_cancelled:
  assumes "continues fetch (Suc j) (marker sc)" "abortController s = Some False" "j < n"
  shows "\<exists>s'. runScan fetch (Some (k + j)) now n k (s, sc) = Some s'
              \<and> holders s' = holders s \<and> lastUpdated s' = lastUpdated s
              \<and> error (fetchStatus s') = Some ''Scan aborted by user''
              \<and> \<not> complete (fetchStatus s')"
  using assms
proof (induction j arbitrary: n k s sc)
  case 0
  then obtain n' where n: "n = Suc n'" by (cases n) auto
  from 0 obtain b where b: "fetch (marker sc) = Inr b" "markerTruthy (nextMarker b)"
    by (auto split: sum.splits)
  from 0 have ab: "abortController (stopScan s) = Some True"
    by (simp add: stopScan_aborts)
  have nc: "\<not> complete (fetchStatus (stopScan s))"
    using 0 by (simp add: stopScan_def)
  from resumeScan_aborted [where fetch = fetch and sc = sc and b = b
      and s = "stopScan s" and now = now] b ab nc
  show ?case
    by (auto simp: n)
next
  case (Suc j)
  then obtain n' where n: "n = Suc n'" "j < n'" by (cases n) auto
  from Suc.prems obtain b where b: "fetch (marker sc) = Inr b" "markerTruthy (nextMarker b)"
    and rest: "continues fetch (Suc j) (nextMarker b)"
    by (auto split: sum.splits)
  from resumeScan_goes_on [where fetch = fetch and sc = sc and b = b
      and s = s and now = now] b Suc.prems(2)
  obtain s2 sc2 where step: "resumeScan fetch now (s, sc) = (s2, Some sc2)"
    and m: "marker sc2 = nextMarker b"
    and fr: "holders s2 = holders s" "lastUpdated s2 = lastUpdated s"
      "abortController s2 = Some False"
    by blast
  from rest m have c2: "continues fetch (Suc j) (marker sc2)" by simp
  from Suc.IH [OF c2 fr(3) n(2), of "Suc k"] step fr show ?case
    by (simp add: n)
qed

lemma scan_cancelled:
  assumes "\<not> isFetching (fetchStatus s)" "continues fetch (Suc k) None" "k < n"
  shows "\<exists>s'. scan fetch (Some k) now n s = Some s'
              \<and> holders s' = holders s \<and> lastUpdated s' = lastUpdated s
              \<and> error (fetchStatus s') = Some ''Scan aborted by user''
              \<and> \<not> complete (fetchStatus s')"
  using runScan_cancelled [of fetch k
      "\<lparr> render = s, allLines = [], marker = None,
         isBackgroundUpdate = (0 < length (holders s)) \<rparr>"
      "fst (startScan s s)" n 0 now] assms
  by (simp add: scan_def startScan_running)

lemma failed_rescan:
  "scan brokenLedger None now (Suc (Suc n)) publishedApp =
     Some (publishedApp\<lparr>
       fetchStatus := \<lparr> isFetching = False, linesFetched = 0,
                        statusMessage = ''Error during scan.'',
                        error = Some ''Network error'', complete = False \<rparr>,
       abortController := Some False \<rparr>)"
  by (simp add: scan_def startScan_def loopHead_def resumeScan_def brokenLedger_def
        catchScan_def holdersBatch_page1 publishedApp_fields Let_def)

text \<open>
  C2. When the head of the loop finds the signal aborted, the scan ends in the
  \<^verbatim>\<open>catch\<close> block without a call of \<^verbatim>\<open>processResults\<close>, and the holder list and its
  date stay as they were. At every suspension of the loop the holder list and its date
  are those of the start. A stop pressed while a request is in flight whose page has a
  marker is seen at the head of the loop: the scan ends, with the cancellation message,
  not complete, and the holder list and its date are untouched. A scan that ends has
  either left the holder list and its date untouched, and is not complete, or the loop
  has fully succeeded, every request answered up to a page without a marker, and the list
  is replaced by the aggregation of the holdings of all the pages; so a scan in which a
  request fails, and a scan that ends with the cancellation message, leave them untouched.
\<close>

theorem C2_no_partial_publication:
  "(abortController s = Some True
      \<longrightarrow> loopHead s sc = (catchScan ''Scan aborted by user'' s, None)
          \<and> holders (catchScan ''Scan aborted by user'' s) = holders s
          \<and> lastUpdated (catchScan ''Scan aborted by user'' s) = lastUpdated s)
   \<and> (\<forall>c\<in>set (scanTrace fetch stopAt now n k (s, sc)).
         holders (fst c) = holders s \<and> lastUpdated (fst c) = lastUpdated s)
   \<and> (\<not> isFetching (fetchStatus s) \<and> continues fetch (Suc k) None \<and> k < n
      \<longrightarrow> (\<exists>s'. scan fetch (Some k) now n s = Some s'
                \<and> holders s' = holders s \<and> lastUpdated s' = lastUpdated s
                \<and> error (fetchStatus s') = Some ''Scan aborted by user''
                \<and> \<not> complete (fetchStatus s')))
   \<and> (\<not> isFetching (fetchStatus s) \<and> scan fetch stopAt now n s = Some s'
      \<longrightarrow> (error (fetchStatus s') = Some ''Scan aborted by user''
            \<longrightarrow> holders s' = holders s \<and> lastUpdated s' = lastUpdated s)
          \<and> (\<not> loopSucceeds fetch n None
            \<longrightarrow> holders s' = holders s \<and> lastUpdated s' = lastUpdated s
                \<and> \<not> complete (fetchStatus s'))
          \<and> ((holders s' = holders s \<and> lastUpdated s' = lastUpdated s
               \<and> \<not> complete (fetchStatus s'))
              \<or> (loopSucceeds fetch n None
                 \<and> fetchStatus s' = \<lparr> isFetching = False, linesFetched = length (holders s'),
                                     statusMessage = ''Scan complete.'', error = None,
                                     complete = True \<rparr>
                 \<and> lastUpdated s' = Some now
                 \<and> holders s' = processed (excludeIssuer s) (metrics s)
                                   (pagesFrom fetch n None))))"
proof (intro conjI impI)
  show "\<forall>c\<in>set (scanTrace fetch stopAt now n k (s, sc)).
          holders (fst c) = holders s \<and> lastUpdated (fst c) = lastUpdated s"
    by (rule scanTrace_frame)
next
  assume "\<not> isFetching (fetchStatus s) \<and> continues fetch (Suc k) None \<and> k < n"
  then show "\<exists>s'. scan fetch (Some k) now n s = Some s'
                \<and> holders s' = holders s \<and> lastUpdated s' = lastUpdated s
                \<and> error (fetchStatus s') = Some ''Scan aborted by user''
                \<and> \<not> complete (fetchStatus s')"
    by (simp add: scan_cancelled)
next
  assume a: "\<not> isFetching (fetchStatus s) \<and> scan fetch stopAt now n s = Some s'"
  then have r: "(holders s' = holders s \<and> lastUpdated s' = lastUpdated s
                  \<and> \<not> complete (fetchStatus s'))
              \<or> (loopSucceeds fetch n None
                 \<and> fetchStatus s' = \<lparr> isFetching = False, linesFetched = length (holders s'),
                                     statusMessage = ''Scan complete.'', error = None,
                                     complete = True \<rparr>
                 \<and> lastUpdated s' = Some now
                 \<and> holders s' = processed (excludeIssuer s) (metrics s)
                                   (pagesFrom fetch n None))"
    using scan_result [of fetch stopAt now n s s'] by blast
  then show "(holders s' = holders s \<and> lastUpdated s' = lastUpdated s
                  \<and> \<not> complete (fetchStatus s'))
              \<or> (loopSucceeds fetch n None
                 \<and> fetchStatus s' = \<lparr> isFetching = False, linesFetched = length (holders s'),
                                     statusMessage = ''Scan complete.'', error = None,
                                     complete = True \<rparr>
                 \<and> lastUpdated s' = Some now
                 \<and> holders s' = processed (excludeIssuer s) (metrics s)
                                   (pagesFrom fetch n None))" .
  {
    assume e: "error (fetchStatus s') = Some ''Scan aborted by user''"
    from r e show "holders s' = holders s" by auto
    from r e show "lastUpdated s' = lastUpdated s" by auto
  }
  {
    assume f: "\<not> loopSucceeds fetch n None"
    from r f show "holders s' = holders s" by auto
    from r f show "lastUpdated s' = lastUpdated s" by auto
    from r f show "\<not> complete (fetchStatus s')" by auto
  }
qed (simp_all add: loopHead_aborted)

theorem C2_witness:
  "\<not> isFetching (fetchStatus publishedApp)
   \<and> scan twoPages (Some 0) 9 2 publishedApp
       = Some (publishedApp\<lparr>
           fetchStatus := \<lparr> isFetching = False, linesFetched = 0,
                            statusMessage = ''Error during scan.'',
                            error = Some ''Scan aborted by user'', complete = False \<rparr>,
           abortController := Some True \<rparr>)
   \<and> length (holders publishedApp) = 2
   \<and> holders (publishedApp\<lparr>
           fetchStatus := \<lparr> isFetching = False, linesFetched = 0,
                            statusMessage = ''Error during scan.'',
                            error = Some ''Scan aborted by user'', complete = False \<rparr>,
           abortController := Some True \<rparr>) = holders publishedApp
   \<and> continues twoPages (Suc 0) None
   \<and> (0 :: nat) < 2
   \<and> (\<exists>s'. scan twoPages (Some 0) 9 2 publishedApp = Some s'
            \<and> holders s' = holders publishedApp \<and> lastUpdated s' = lastUpdated publishedApp
            \<and> error (fetchStatus s') = Some ''Scan aborted by user''
            \<and> \<not> complete (fetchStatus s'))
   \<and> scan brokenLedger None 9 2 publishedApp
       = Some (publishedApp\<lparr>
           fetchStatus := \<lparr> isFetching = False, linesFetched = 0,
                            statusMessage = ''Error during scan.'',
                            error = Some ''Network error'', complete = False \<rparr>,
           abortController := Some False \<rparr>)
   \<and> \<not> loopSucceeds brokenLedger 2 None
   \<and> holders (publishedApp\<lparr>
           fetchStatus := \<lparr> isFetching = False, linesFetched = 0,
                            statusMessage = ''Error during scan.'',
                            error = Some ''Network error'', complete = False \<rparr>,
           abortController := Some False \<rparr>) = holders publishedApp
   \<and> loopSucceeds twoPages 2 None"
proof -
  let ?s' = "publishedApp\<lparr>
           fetchStatus := \<lparr> isFetching = False, linesFetched = 0,
                            statusMessage = ''Error during scan.'',
                            error = Some ''Scan aborted by user'', complete = False \<rparr>,
           abortController := Some True \<rparr>"
  let ?f' = "publishedApp\<lparr>
           fetchStatus := \<lparr> isFetching = False, linesFetched = 0,
                            statusMessage = ''Error during scan.'',
                            error = Some ''Network error'', complete = False \<rparr>,
           abortController := Some False \<rparr>"
  have h1: "\<not> isFetching (fetchStatus publishedApp)" by (simp add: publishedApp_fields)
  have h2: "scan twoPages (Some 0) 9 2 publishedApp = Some ?s'"
    using stopped_rescan [of 9 "Suc 0"] by (simp add: numeral_2_eq_2)
  have h3: "error (fetchStatus ?s') = Some ''Scan aborted by user''" by simp
  have h4: "continues twoPages (Suc 0) None" by (simp add: twoPages_def)
  have h5: "(0 :: nat) < 2" by simp
  have h6: "scan brokenLedger None 9 2 publishedApp = Some ?f'"
    using failed_rescan [of 9 0] by (simp add: numeral_2_eq_2)
  have h7: "\<not> loopSucceeds brokenLedger 2 None"
    by (simp add: numeral_2_eq_2 brokenLedger_def)
  have h8: "loopSucceeds twoPages 2 None"
    by (simp add: numeral_2_eq_2 twoPages_def)
  from C2_no_partial_publication [where s = publishedApp and fetch = twoPages
      and stopAt = "Some 0" and now = 9 and n = 2 and s' = ?s' and k = 0] h1 h2 h3
  have c1: "holders ?s' = holders publishedApp" by blast
  from C2_no_partial_publication [where s = publishedApp and fetch = twoPages
      and stopAt = "Some 0" and now = 9 and n = 2 and s' = ?s' and k = 0] h1 h4 h5
  have c2: "\<exists>s'. scan twoPages (Some 0) 9 2 publishedApp = Some s'
            \<and> holders s' = holders publishedApp \<and> lastUpdated s' = lastUpdated publishedApp
            \<and> error (fetchStatus s') = Some ''Scan aborted by user''
            \<and> \<not> complete (fetchStatus s')"
    by blast
  from C2_no_partial_publication [where s = publishedApp and fetch = brokenLedger
      and stopAt = None and now = 9 and n = 2 and s' = ?f'] h1 h6 h7
  have c3: "holders ?f' = holders publishedApp" by blast
  from h1 h2 publishedApp_fields(1) c1 h4 h5 c2 h6 h7 c3 h8 show ?thesis by blast
qed

section \<open>The final counter\<close>

text \<open>
  C10. \<^verbatim>\<open>processResults\<close> publishes, as \<^verbatim>\<open>linesFetched\<close> of the complete status, the
  length of the holder list it publishes; so after every scan that ends complete the
  counter is the number of holders left after the filter on balances and the exclusion of
  the issuer, not the number of trust lines fetched.
\<close>

theorem C10_final_count:
  "linesFetched (fetchStatus (processResults r rawHolders bg now s))
     = length (holders (processResults r rawHolders bg now s))
   \<and> complete (fetchStatus (processResults r rawHolders bg now s))
   \<and> (\<not> isFetching (fetchStatus s) \<and> scan fetch stopAt now n s = Some s'
        \<and> complete (fetchStatus s')
      \<longrightarrow> linesFetched (fetchStatus s') = length (holders s')
          \<and> holders s' = processed (excludeIssuer s) (metrics s) (pagesFrom fetch n None))"
proof (intro conjI impI)
  assume a: "\<not> isFetching (fetchStatus s) \<and> scan fetch stopAt now n s = Some s'
             \<and> complete (fetchStatus s')"
  with scan_result [of fetch stopAt now n s s']
  have r: "fetchStatus s' = \<lparr> isFetching = False, linesFetched = length (holders s'),
                              statusMessage = ''Scan complete.'', error = None,
                              complete = True \<rparr>
           \<and> holders s' = processed (excludeIssuer s) (metrics s) (pagesFrom fetch n None)"
    by blast
  from r show "holders s' = processed (excludeIssuer s) (metrics s) (pagesFrom fetch n None)"
    by blast
  from r have "linesFetched (fetchStatus s')
               = linesFetched \<lparr> isFetching = False, linesFetched = length (holders s'),
                              statusMessage = ''Scan complete.'', error = None,
                              complete = True \<rparr>"
    by simp
  then show "linesFetched (fetchStatus s') = length (holders s')" by simp
qed simp_all

theorem C10_witness:
  "\<not> isFetching (fetchStatus fixtureApp)
   \<and> scan twoPages None 7 2 fixtureApp = Some publishedApp
   \<and> complete (fetchStatus publishedApp)
   \<and> linesFetched (fetchStatus publishedApp) = length (holders publishedApp)
   \<and> length (holders publishedApp) = 2"
proof -
  have h1: "\<not> isFetching (fetchStatus fixtureApp)" by (simp add: fixtureApp_fields)
  have h2: "scan twoPages None 7 2 fixtureApp = Some publishedApp"
    using twoPages_scan [of 7 0] by (simp add: publishedApp_eq numeral_2_eq_2)
  have h3: "complete (fetchStatus publishedApp)" by (simp add: publishedApp_fields)
  from C10_final_count [where s = fixtureApp and fetch = twoPages and stopAt = None
      and now = 7 and n = 2 and s' = publishedApp] h1 h2 h3
  have c: "linesFetched (fetchStatus publishedApp) = length (holders publishedApp)" by blast
  from h1 h2 h3 c publishedApp_fields(1) show ?thesis by blast
qed

section \<open>Progress reports\<close>

lemma firstStart: "startScan fixtureApp fixtureApp = (firstApp, Some firstScan)"
  by (simp add: firstApp_def firstScan_def startScan_running fixtureApp_fields)

lemma rescanStart: "startScan publishedApp publishedApp = (rescanApp, Some rescanScan)"
  by (simp add: rescanApp_def rescanScan_def startScan_running publishedApp_fields)

lemma firstApp_fields:
  "fetchStatus firstApp = \<lparr> isFetching = True, linesFetched = 0,
      statusMessage = ''Initializing connection to XRPL...'', error = None, complete = False \<rparr>"
  "abortController firstApp = Some False"
  by (simp_all add: firstApp_def startScan_running fixtureApp_fields)

lemma rescanApp_fields:
  "fetchStatus rescanApp = \<lparr> isFetching = True, linesFetched = 0,
      statusMessage = ''Scan complete.'', error = None, complete = False \<rparr>"
  "abortController rescanApp = Some False"
  by (simp_all add: rescanApp_def startScan_running publishedApp_fields)

lemma rescan_trace:
  "scanTrace twoPages None now (Suc (Suc n)) 0 (rescanApp, rescanScan)
   = [(rescanApp, rescanScan\<lparr> allLines := [\<lparr> raw_account = ''A'', raw_balance = Fin 500 \<rparr>],
                               marker := Some (MString ''page2'') \<rparr>)]"
  by (simp add: resumeScan_def loopHead_def twoPages_def holdersBatch_page1 holdersBatch_page2
        rescanScan_def rescanApp_fields Let_def)

lemma first_trace_length:
  "length (scanTrace twoPages None now (Suc (Suc n)) 0 (firstApp, firstScan)) = 1"
  by (simp add: resumeScan_def loopHead_def twoPages_def holdersBatch_page1 holdersBatch_page2
        firstScan_def firstApp_fields Let_def)

text \<open>
  C8. A scan started from a render whose holder list is not empty keeps the status message
  of that render and sets the counter to zero when it starts; at every suspension of its loop the whole
  status is still the one of the start, and it changes only when the scan ends. A scan
  started with an empty holder list reports after each page: at the suspension after page
  \<open>i + 1\<close> the counter is the number of holders found on the pages so far, and the
  message names that number.
\<close>

theorem C8_quiet_rescan:
  "startScan r s = (s1, Some sc) \<longrightarrow>
     (0 < length (holders r) \<longrightarrow>
        statusMessage (fetchStatus s1) = statusMessage (fetchStatus r)
        \<and> linesFetched (fetchStatus s1) = 0
        \<and> (\<forall>c\<in>set (scanTrace fetch None now n 0 (s1, sc)). fetchStatus (fst c) = fetchStatus s1)
        \<and> (runScan fetch None now n 0 (s1, sc) = Some s'
             \<longrightarrow> fetchStatus s' \<noteq> fetchStatus s1))
     \<and> (length (holders r) = 0 \<longrightarrow>
          (\<forall>i<length (scanTrace fetch None now n 0 (s1, sc)).
             linesFetched (fetchStatus (fst (scanTrace fetch None now n 0 (s1, sc) ! i)))
               = length (pagesFrom fetch (Suc i) None)
             \<and> statusMessage (fetchStatus (fst (scanTrace fetch None now n 0 (s1, sc) ! i)))
               = ''Scanning ledger... found ''
                 @ showNat (length (pagesFrom fetch (Suc i) None))
                 @ '' holders so far''))"
proof (intro impI)
  assume st: "startScan r s = (s1, Some sc)"
  then have idle: "\<not> isFetching (fetchStatus r)"
    by (auto simp: startScan_busy)
  from st startScan_running [OF idle, of s]
  have s1: "s1 = s\<lparr> fetchStatus :=
           \<lparr> isFetching = True, linesFetched = 0,
             statusMessage = (if 0 < length (holders r) then statusMessage (fetchStatus r)
                              else ''Initializing connection to XRPL...''),
             error = None, complete = False \<rparr>,
         abortController := Some False \<rparr>"
    and sc: "sc = \<lparr> render = r, allLines = [], marker = None,
             isBackgroundUpdate = (0 < length (holders r)) \<rparr>"
    by simp_all
  show "(0 < length (holders r) \<longrightarrow>
        statusMessage (fetchStatus s1) = statusMessage (fetchStatus r)
        \<and> linesFetched (fetchStatus s1) = 0
        \<and> (\<forall>c\<in>set (scanTrace fetch None now n 0 (s1, sc)). fetchStatus (fst c) = fetchStatus s1)
        \<and> (runScan fetch None now n 0 (s1, sc) = Some s'
             \<longrightarrow> fetchStatus s' \<noteq> fetchStatus s1))
     \<and> (length (holders r) = 0 \<longrightarrow>
          (\<forall>i<length (scanTrace fetch None now n 0 (s1, sc)).
             linesFetched (fetchStatus (fst (scanTrace fetch None now n 0 (s1, sc) ! i)))
               = length (pagesFrom fetch (Suc i) None)
             \<and> statusMessage (fetchStatus (fst (scanTrace fetch None now n 0 (s1, sc) ! i)))
               = ''Scanning ledger... found ''
                 @ showNat (length (pagesFrom fetch (Suc i) None))
                 @ '' holders so far''))"
  proof (intro conjI impI allI)
    assume bg: "0 < length (holders r)"
    then have bg': "isBackgroundUpdate sc" by (simp add: sc)
    show "statusMessage (fetchStatus s1) = statusMessage (fetchStatus r)"
      using bg by (simp add: s1)
    show "linesFetched (fetchStatus s1) = 0" by (simp add: s1)
    show "\<forall>c\<in>set (scanTrace fetch None now n 0 (s1, sc)). fetchStatus (fst c) = fetchStatus s1"
      by (rule scanTrace_background [OF bg'])
    assume "runScan fetch None now n 0 (s1, sc) = Some s'"
    then have "\<not> isFetching (fetchStatus s')" by (rule runScan_idle)
    moreover have "isFetching (fetchStatus s1)" by (simp add: s1)
    ultimately show "fetchStatus s' \<noteq> fetchStatus s1" by auto
  next
    fix i
    assume init: "length (holders r) = 0"
      and i: "i < length (scanTrace fetch None now n 0 (s1, sc))"
    from init have nbg: "\<not> isBackgroundUpdate sc" by (simp add: sc)
    from scanTrace_initial [OF nbg i]
    show "linesFetched (fetchStatus (fst (scanTrace fetch None now n 0 (s1, sc) ! i)))
               = length (pagesFrom fetch (Suc i) None)"
      and "statusMessage (fetchStatus (fst (scanTrace fetch None now n 0 (s1, sc) ! i)))
               = ''Scanning ledger... found ''
                 @ showNat (length (pagesFrom fetch (Suc i) None))
                 @ '' holders so far''"
      by (simp_all add: sc)
  qed
qed

theorem C8_witness:
  "startScan publishedApp publishedApp = (rescanApp, Some rescanScan)
   \<and> 0 < length (holders publishedApp)
   \<and> scanTrace twoPages None 9 2 0 (rescanApp, rescanScan) \<noteq> []
   \<and> fetchStatus (fst (hd (scanTrace twoPages None 9 2 0 (rescanApp, rescanScan))))
       = fetchStatus rescanApp
   \<and> statusMessage (fetchStatus rescanApp) = statusMessage (fetchStatus publishedApp)
   \<and> startScan fixtureApp fixtureApp = (firstApp, Some firstScan)
   \<and> length (holders fixtureApp) = 0
   \<and> 0 < length (scanTrace twoPages None 9 2 0 (firstApp, firstScan))
   \<and> linesFetched (fetchStatus (fst (scanTrace twoPages None 9 2 0 (firstApp, firstScan) ! 0)))
       = length (pagesFrom twoPages (Suc 0) None)
   \<and> length (pagesFrom twoPages (Suc 0) None) = 1"
proof -
  let ?bt = "scanTrace twoPages None 9 2 0 (rescanApp, rescanScan)"
  let ?it = "scanTrace twoPages None 9 2 0 (firstApp, firstScan)"
  have b1: "0 < length (holders publishedApp)" by (simp add: publishedApp_fields)
  have b2: "?bt \<noteq> []" using rescan_trace [of 9 0] by (simp add: numeral_2_eq_2)
  then have b3: "hd ?bt \<in> set ?bt" by simp
  from C8_quiet_rescan [where r = publishedApp and s = publishedApp and ?s1.0 = rescanApp and sc = rescanScan
      and fetch = twoPages and now = 9 and n = 2] rescanStart b1
  have c1: "statusMessage (fetchStatus rescanApp) = statusMessage (fetchStatus publishedApp)"
    and c2: "\<forall>c\<in>set ?bt. fetchStatus (fst c) = fetchStatus rescanApp"
    by blast+
  from c2 b3 have c3: "fetchStatus (fst (hd ?bt)) = fetchStatus rescanApp" by blast
  have i1: "length (holders fixtureApp) = 0" by (simp add: fixtureApp_fields)
  have i2: "0 < length ?it" using first_trace_length [of 9 0] by (simp add: numeral_2_eq_2)
  from C8_quiet_rescan [where r = fixtureApp and s = fixtureApp and ?s1.0 = firstApp and sc = firstScan
      and fetch = twoPages and now = 9 and n = 2] firstStart i1 i2
  have c4: "linesFetched (fetchStatus (fst (?it ! 0))) = length (pagesFrom twoPages (Suc 0) None)"
    by blast
  have c5: "length (pagesFrom twoPages (Suc 0) None) = 1"
    by (simp add: twoPages_def holdersBatch_page1)
  from rescanStart b1 b2 c3 c1 firstStart i1 i2 c4 c5 show ?thesis by blast
qed

section \<open>Excluding the issuer\<close>

lemma mset_insertBy: "mset (insertBy cmp x ys) = add_mset x (mset ys)"
  by (induction ys) auto

lemma mset_sortBy: "mset (sortBy cmp xs) = mset xs"
  by (induction xs) (simp_all add: sortBy_Nil sortBy_Cons mset_insertBy)

lemma length_filter_insertBy:
  "length (filter P (insertBy cmp x ys)) = length (filter P (x # ys))"
  by (induction ys) auto

lemma length_filter_sortBy: "length (filter P (sortBy cmp xs)) = length (filter P xs)"
  by (induction xs) (simp_all add: sortBy_Nil sortBy_Cons length_filter_insertBy)

lemma enumerate_shift:
  "map (\<lambda>h. h\<lparr> rank := rank h - 1 \<rparr>) (map (\<lambda>(i, h). mkHolder sb i h) (enumerate (Suc n) xs))
   = map (\<lambda>(i, h). mkHolder sb i h) (enumerate n xs)"
  by (induction xs arbitrary: n) (simp_all add: mkHolder_def Let_def split: prod.splits)

lemma takeWhile_holders:
  "length (takeWhile (\<lambda>h. account h \<noteq> a) (map (\<lambda>(i, h). mkHolder sb i h) (enumerate n xs)))
   = length (takeWhile (\<lambda>h. raw_account h \<noteq> a) xs)"
  by (induction xs arbitrary: n) simp_all

lemma filter_none: "length (filter P xs) = 0 \<Longrightarrow> filter (\<lambda>x. \<not> P x) xs = xs"
  by (induction xs) (auto split: if_splits)

lemma exclude_shift:
  assumes "length (filter (\<lambda>h. raw_account h = a) xs) \<le> 1"
  shows "map (\<lambda>(i, h). mkHolder sb i h) (enumerate n (filter (\<lambda>h. raw_account h \<noteq> a) xs))
         = take (length (takeWhile (\<lambda>h. raw_account h \<noteq> a) xs))
             (map (\<lambda>(i, h). mkHolder sb i h) (enumerate n xs))
           @ map (\<lambda>h. h\<lparr> rank := rank h - 1 \<rparr>)
               (drop (Suc (length (takeWhile (\<lambda>h. raw_account h \<noteq> a) xs)))
                  (map (\<lambda>(i, h). mkHolder sb i h) (enumerate n xs)))"
  using assms
proof (induction xs arbitrary: n)
  case Nil
  then show ?case by simp
next
  case (Cons x xs)
  show ?case
  proof (cases "raw_account x = a")
    case True
    with Cons.prems have "length (filter (\<lambda>h. raw_account h = a) xs) = 0" by simp
    then have "filter (\<lambda>h. raw_account h \<noteq> a) xs = xs" by (rule filter_none)
    with True enumerate_shift [of sb n xs] show ?thesis by simp
  next
    case False
    with Cons.prems have "length (filter (\<lambda>h. raw_account h = a) xs) \<le> 1" by simp
    from Cons.IH [OF this, of "Suc n"] False show ?thesis by simp
  qed
qed

lemma account_balance_filter:
  "filter (\<lambda>p. fst p \<noteq> a) (map (\<lambda>h. (raw_account h, raw_balance h)) xs)
   = map (\<lambda>h. (raw_account h, raw_balance h)) (filter (\<lambda>h. raw_account h \<noteq> a) xs)"
  by (induction xs) simp_all

lemma length_filter_split:
  "length (filter (\<lambda>x. \<not> P x) xs) + length (filter P xs) = length xs"
  by (induction xs) simp_all

lemma oneIssuer_ranks:
  "map (\<lambda>h. (account h, rank h)) (holders (processResults fixtureApp oneIssuer False 0 fixtureApp))
   = [(ISSUER, 1), (''B'', 2), (''A'', 3)]"
  "map (\<lambda>h. (account h, rank h)) (holders (processResults initialApp oneIssuer False 0 initialApp))
   = [(''B'', 1), (''A'', 2)]"
  by (simp_all add: oneIssuer_def processed_def sortedOf_def sortBy_def byBalanceDesc_def
        jgt_def initialApp_def fixtureApp_def ISSUER_def Let_def)

text \<open>
  C7, as the claim states it, fails: with \<^verbatim>\<open>excludeIssuer\<close> set, the filter drops every
  entry of the issuer's account, and of three holdings, two of them the issuer's, one
  holder is left.
\<close>

theorem C7_counterexample:
  "excludeIssuer initialApp
   \<and> length twoIssuers = 3
   \<and> length (holders (processResults initialApp twoIssuers False 0 initialApp)) = 1
   \<and> \<not> length twoIssuers
        \<le> Suc (length (holders (processResults initialApp twoIssuers False 0 initialApp)))"
  by (simp add: twoIssuers_def processed_def sortedOf_def sortBy_def byBalanceDesc_def
        jgt_def initialApp_def ISSUER_def Let_def)

text \<open>
  C7, amended. With \<^verbatim>\<open>excludeIssuer\<close> unset, the published holders are the raw holdings,
  each exactly once. With it set, they are the holders published without it minus every
  entry of the issuer's account, as many fewer as the input has such entries. When the
  input has at most one entry of the issuer's account, at most one entry is removed: the
  holders before it are as without the exclusion, and those after it are as without the
  exclusion but for their rank, which is one less.
\<close>

theorem C7_exclude_issuer:
  "(\<not> excludeIssuer r \<longrightarrow>
      mset (map (\<lambda>h. (account h, balance h)) (holders (processResults r rawHolders bg now s)))
        = mset (map (\<lambda>h. (raw_account h, raw_balance h)) rawHolders))
   \<and> (excludeIssuer r \<longrightarrow>
        map (\<lambda>h. (account h, balance h)) (holders (processResults r rawHolders bg now s))
          = filter (\<lambda>p. fst p \<noteq> ISSUER)
              (map (\<lambda>h. (account h, balance h)) (processed False (metrics r) rawHolders))
        \<and> length (holders (processResults r rawHolders bg now s))
            + length (filter (\<lambda>h. raw_account h = ISSUER) rawHolders)
          = length rawHolders)
   \<and> (excludeIssuer r \<and> length (filter (\<lambda>h. raw_account h = ISSUER) rawHolders) \<le> 1 \<longrightarrow>
        length rawHolders \<le> Suc (length (holders (processResults r rawHolders bg now s)))
        \<and> holders (processResults r rawHolders bg now s)
          = take (length (takeWhile (\<lambda>h. account h \<noteq> ISSUER)
                            (processed False (metrics r) rawHolders)))
              (processed False (metrics r) rawHolders)
            @ map (\<lambda>h. h\<lparr> rank := rank h - 1 \<rparr>)
                (drop (Suc (length (takeWhile (\<lambda>h. account h \<noteq> ISSUER)
                                     (processed False (metrics r) rawHolders))))
                   (processed False (metrics r) rawHolders)))"
proof -
  let ?S = "sortBy byBalanceDesc rawHolders"
  have off: "sortedOf False rawHolders = ?S"
    by (simp add: sortedOf_def)
  have on: "sortedOf True rawHolders = filter (\<lambda>h. raw_account h \<noteq> ISSUER) ?S"
    by (simp add: sortedOf_def)
  have a: "\<not> excludeIssuer r \<Longrightarrow>
      mset (map (\<lambda>h. (account h, balance h)) (holders (processResults r rawHolders bg now s)))
        = mset (map (\<lambda>h. (raw_account h, raw_balance h)) rawHolders)"
    by (simp only: holders_processResults processed_eq raw_enumerate off)
      (simp add: mset_sortBy)
  have b1: "excludeIssuer r \<Longrightarrow>
        map (\<lambda>h. (account h, balance h)) (holders (processResults r rawHolders bg now s))
          = filter (\<lambda>p. fst p \<noteq> ISSUER)
              (map (\<lambda>h. (account h, balance h)) (processed False (metrics r) rawHolders))"
    by (simp only: holders_processResults processed_eq raw_enumerate off on
          account_balance_filter)
  have b2: "excludeIssuer r \<Longrightarrow>
        length (holders (processResults r rawHolders bg now s))
            + length (filter (\<lambda>h. raw_account h = ISSUER) rawHolders)
          = length rawHolders"
    using length_filter_split [of "\<lambda>h. raw_account h = ISSUER" ?S]
    by (simp add: length_processed on length_filter_sortBy length_sortBy)
  have c: "holders (processResults r rawHolders bg now s)
          = take (length (takeWhile (\<lambda>h. account h \<noteq> ISSUER)
                            (processed False (metrics r) rawHolders)))
              (processed False (metrics r) rawHolders)
            @ map (\<lambda>h. h\<lparr> rank := rank h - 1 \<rparr>)
                (drop (Suc (length (takeWhile (\<lambda>h. account h \<noteq> ISSUER)
                                     (processed False (metrics r) rawHolders))))
                   (processed False (metrics r) rawHolders))"
    if ex: "excludeIssuer r" and one: "length (filter (\<lambda>h. raw_account h = ISSUER) rawHolders) \<le> 1"
  proof -
    from one have "length (filter (\<lambda>h. raw_account h = ISSUER) ?S) \<le> 1"
      by (simp add: length_filter_sortBy)
    from exclude_shift [OF this, of "supplyBasisOf (metrics r)" 0] ex show ?thesis
      by (simp only: holders_processResults processed_eq off on takeWhile_holders)
  qed
  from a b1 b2 c show ?thesis by auto
qed

theorem C7_witness:
  "excludeIssuer initialApp
   \<and> length (filter (\<lambda>h. raw_account h = ISSUER) oneIssuer) \<le> 1
   \<and> length oneIssuer
       \<le> Suc (length (holders (processResults initialApp oneIssuer False 0 initialApp)))
   \<and> \<not> excludeIssuer fixtureApp
   \<and> mset (map (\<lambda>h. (account h, balance h))
              (holders (processResults fixtureApp oneIssuer False 0 fixtureApp)))
       = mset (map (\<lambda>h. (raw_account h, raw_balance h)) oneIssuer)"
proof -
  have h1: "excludeIssuer initialApp" by (simp add: initialApp_def)
  have h2: "length (filter (\<lambda>h. raw_account h = ISSUER) oneIssuer) \<le> 1"
    by (simp add: oneIssuer_def ISSUER_def)
  have h3: "\<not> excludeIssuer fixtureApp" by (simp add: fixtureApp_fields)
  from C7_exclude_issuer [where r = initialApp and rawHolders = oneIssuer and bg = False
      and now = 0 and s = initialApp] h1 h2
  have c1: "length oneIssuer
       \<le> Suc (length (holders (processResults initialApp oneIssuer False 0 initialApp)))"
    by blast
  from C7_exclude_issuer [where r = fixtureApp and rawHolders = oneIssuer and bg = False
      and now = 0 and s = fixtureApp] h3
  have c2: "mset (map (\<lambda>h. (account h, balance h))
              (holders (processResults fixtureApp oneIssuer False 0 fixtureApp)))
       = mset (map (\<lambda>h. (raw_account h, raw_balance h)) oneIssuer)"
    by blast
  from h1 h2 h3 c1 c2 show ?thesis by blast
qed

section \<open>Live update\<close>

lemma oneTimer_cases:
  "oneTimer q \<Longrightarrow> pending q = [] \<or> (\<exists>t. pending q = [t] \<and> timeout q = Some (fst t))"
  by (auto simp: oneTimer_def split: list.splits)

lemma oneTimer_length: "oneTimer q \<Longrightarrow> length (pending q) \<le> 1"
  by (auto dest: oneTimer_cases)

lemma oneTimer_cleared: "oneTimer q \<Longrightarrow> pending (clearTimeout (timeout q) q) = []"
  by (auto simp: clearTimeout_def dest: oneTimer_cases)

lemma oneTimer_initial: "oneTimer initialScheduler"
  by (simp add: oneTimer_def initialScheduler_def)

lemma effect_complete:
  assumes "oneTimer q" "isLiveUpdate s" "\<not> isFetching (fetchStatus s)" "complete (fetchStatus s)"
  shows "liveUpdateEffect now (s, q)
         = ((s, None), q\<lparr> pending := [(nextHandle q, now + 10000, s)],
                          timeout := Some (nextHandle q),
                          nextHandle := nextHandle q + 1 \<rparr>)"
  using assms oneTimer_cleared [OF assms(1)]
  by (simp add: liveUpdateEffect_def Let_def clearTimeout_def)

lemma effect_first:
  assumes "oneTimer q" "isLiveUpdate s" "\<not> isFetching (fetchStatus s)"
    "\<not> complete (fetchStatus s)" "length (holders s) = 0"
  shows "liveUpdateEffect now (s, q) = (startScan s s, q\<lparr> pending := [], timeout := None \<rparr>)"
  using assms oneTimer_cleared [OF assms(1)]
  by (simp add: liveUpdateEffect_def Let_def clearTimeout_def)

lemma effect_off:
  assumes "oneTimer q" "\<not> isLiveUpdate s"
  shows "liveUpdateEffect now (s, q) = ((s, None), q\<lparr> pending := [], timeout := None \<rparr>)"
  using assms oneTimer_cleared [OF assms(1)]
  by (simp add: liveUpdateEffect_def Let_def clearTimeout_def)

lemma effect_oneTimer:
  assumes "oneTimer q"
  shows "oneTimer (snd (liveUpdateEffect now (s, q)))"
  using oneTimer_cleared [OF assms]
  by (simp add: liveUpdateEffect_def Let_def clearTimeout_def oneTimer_def)

lemma commit_oneTimer:
  assumes "oneTimer q"
  shows "oneTimer (snd (commit now prev (s, q)))"
  using assms by (simp add: commit_def effect_oneTimer)

lemma fire_oneTimer:
  assumes "oneTimer q"
  shows "oneTimer (snd (fireTimers now (s, q)))"
proof -
  from oneTimer_cases [OF assms] show ?thesis
  proof
    assume "pending q = []"
    with assms show ?thesis by (simp add: fireTimers_def)
  next
    assume "\<exists>t. pending q = [t] \<and> timeout q = Some (fst t)"
    then obtain t where t: "pending q = [t]" "timeout q = Some (fst t)" by blast
    show ?thesis
    proof (cases "fst (snd t) \<le> now")
      case True
      with t show ?thesis by (simp add: fireTimers_def oneTimer_def)
    next
      case False
      with t assms show ?thesis by (simp add: fireTimers_def)
    qed
  qed
qed

lemma fire_none: "pending q = [] \<Longrightarrow> fireTimers t (s, q) = ((s, None), q)"
  by (simp add: fireTimers_def)

lemma fire_early:
  "pending q = [(h, d, r)] \<Longrightarrow> t < d \<Longrightarrow> fireTimers t (s, q) = ((s, None), q)"
  by (simp add: fireTimers_def)

lemma fire_due:
  "pending q = [(h, d, r)] \<Longrightarrow> d \<le> t \<Longrightarrow>
   fireTimers t (s, q) = (startScan r s, q\<lparr> pending := [] \<rparr>)"
  by (simp add: fireTimers_def)

lemma startScan_fetching:
  "\<not> isFetching (fetchStatus r) \<Longrightarrow> isFetching (fetchStatus (fst (startScan r s)))"
  by (simp add: startScan_running)

lemma liveApp_fields:
  "isLiveUpdate liveApp" "\<not> isFetching (fetchStatus liveApp)"
  "\<not> complete (fetchStatus liveApp)" "length (holders liveApp) = 0"
  by (simp_all add: liveApp_def initialApp_def)

lemma emptyDone_eq:
  "emptyDone = liveApp\<lparr>
     lastUpdated := Some 7,
     fetchStatus := \<lparr> isFetching = False, linesFetched = 0, statusMessage = ''Scan complete.'',
                      error = None, complete = True \<rparr>,
     abortController := Some False \<rparr>"
  by (simp add: emptyDone_def scan_def startScan_def loopHead_def resumeScan_def
        emptyLedger_def holdersBatch_def processResults_def processed_def sortedOf_def
        sortBy_def liveApp_def initialApp_def Let_def)

lemma emptyDone_fields:
  "isLiveUpdate emptyDone" "\<not> isFetching (fetchStatus emptyDone)"
  "complete (fetchStatus emptyDone)" "length (holders emptyDone) = 0"
  by (simp_all add: emptyDone_eq liveApp_def initialApp_def)

text \<open>
  C9, as the claim states it, fails where its two cases meet. After a complete scan that
  published an empty holder list, with live update on, no holder data exists, yet the
  effect starts no scan: it arms the timeout of ten seconds, as after any complete scan.
\<close>

theorem C9_counterexample:
  "isLiveUpdate emptyDone
   \<and> \<not> isFetching (fetchStatus emptyDone)
   \<and> length (holders emptyDone) = 0
   \<and> fst (liveUpdateEffect 7 (emptyDone, initialScheduler)) = (emptyDone, None)
   \<and> pending (snd (liveUpdateEffect 7 (emptyDone, initialScheduler))) = [(0, 10007, emptyDone)]"
  using effect_complete [OF oneTimer_initial emptyDone_fields(1,2,3), of 7]
  by (simp add: emptyDone_fields initialScheduler_def)

text \<open>
  C9, amended. With live update on and no scan running: if the last scan is complete, the
  effect starts nothing and arms one timeout, due 10,000 milliseconds later; the host
  leaves it alone before that and calls \<^verbatim>\<open>startScan\<close> of the arming render from then on;
  and when live update is switched off in between, the next commit runs the cleanup, no
  timeout is pending, and nothing fires at any later time. If the last scan is not
  complete and the holder list is empty, the effect calls \<^verbatim>\<open>startScan\<close> at once and
  arms no timeout. From the initial scheduler on, every run of the effect, every commit
  and every firing keeps at most one timeout pending.
\<close>

theorem C9_live_update:
  "oneTimer initialScheduler
   \<and> (oneTimer q \<longrightarrow>
        length (pending q) \<le> 1
        \<and> oneTimer (snd (liveUpdateEffect now (s, q)))
        \<and> oneTimer (snd (commit now prev (s, q)))
        \<and> oneTimer (snd (fireTimers now (s, q)))
        \<and> (isLiveUpdate s \<and> \<not> isFetching (fetchStatus s) \<and> complete (fetchStatus s) \<longrightarrow>
             fst (liveUpdateEffect now (s, q)) = (s, None)
             \<and> pending (snd (liveUpdateEffect now (s, q))) = [(nextHandle q, now + 10000, s)]
             \<and> (t < now + 10000 \<longrightarrow>
                  fireTimers t (s', snd (liveUpdateEffect now (s, q)))
                    = ((s', None), snd (liveUpdateEffect now (s, q))))
             \<and> (now + 10000 \<le> t \<longrightarrow>
                  fst (fireTimers t (s', snd (liveUpdateEffect now (s, q)))) = startScan s s'
                  \<and> isFetching (fetchStatus (fst (startScan s s'))))
             \<and> fst (commit t s (toggleLiveUpdate s, snd (liveUpdateEffect now (s, q))))
                 = (toggleLiveUpdate s, None)
             \<and> pending (snd (commit t s (toggleLiveUpdate s, snd (liveUpdateEffect now (s, q)))))
                 = []
             \<and> fireTimers u
                   (toggleLiveUpdate s,
                    snd (commit t s (toggleLiveUpdate s, snd (liveUpdateEffect now (s, q)))))
                 = ((toggleLiveUpdate s, None),
                    snd (commit t s (toggleLiveUpdate s, snd (liveUpdateEffect now (s, q))))))
        \<and> (isLiveUpdate s \<and> \<not> isFetching (fetchStatus s) \<and> \<not> complete (fetchStatus s)
             \<and> length (holders s) = 0 \<longrightarrow>
             fst (liveUpdateEffect now (s, q)) = startScan s s
             \<and> isFetching (fetchStatus (fst (startScan s s)))
             \<and> pending (snd (liveUpdateEffect now (s, q))) = []))"
proof (intro conjI impI)
  show "oneTimer initialScheduler" by (rule oneTimer_initial)
next
  assume q: "oneTimer q"
  show "length (pending q) \<le> 1" using q by (rule oneTimer_length)
  show "oneTimer (snd (liveUpdateEffect now (s, q)))" using q by (rule effect_oneTimer)
  show "oneTimer (snd (commit now prev (s, q)))" using q by (rule commit_oneTimer)
  show "oneTimer (snd (fireTimers now (s, q)))" using q by (rule fire_oneTimer)
next
  assume q: "oneTimer q"
    and a: "isLiveUpdate s \<and> \<not> isFetching (fetchStatus s) \<and> complete (fetchStatus s)"
  let ?q1 = "q\<lparr> pending := [(nextHandle q, now + 10000, s)],
                 timeout := Some (nextHandle q), nextHandle := Suc (nextHandle q) \<rparr>"
  from a q have e: "liveUpdateEffect now (s, q) = ((s, None), ?q1)"
    by (simp add: effect_complete)
  have p1: "pending ?q1 = [(nextHandle q, now + 10000, s)]" by simp
  have q1: "oneTimer ?q1" by (simp add: oneTimer_def)
  show "fst (liveUpdateEffect now (s, q)) = (s, None)" by (simp add: e)
  show "pending (snd (liveUpdateEffect now (s, q))) = [(nextHandle q, now + 10000, s)]"
    by (simp add: e)
  have off: "commit t s (toggleLiveUpdate s, ?q1)
             = ((toggleLiveUpdate s, None), ?q1\<lparr> pending := [], timeout := None \<rparr>)"
    using a effect_off [OF q1, of "toggleLiveUpdate s" t]
    by (simp add: commit_def liveDeps_def toggleLiveUpdate_def)
  show "fst (commit t s (toggleLiveUpdate s, snd (liveUpdateEffect now (s, q))))
        = (toggleLiveUpdate s, None)"
    by (simp add: e off)
  show "pending (snd (commit t s (toggleLiveUpdate s, snd (liveUpdateEffect now (s, q))))) = []"
    by (simp add: e off)
  show "fireTimers u
          (toggleLiveUpdate s,
           snd (commit t s (toggleLiveUpdate s, snd (liveUpdateEffect now (s, q)))))
        = ((toggleLiveUpdate s, None),
           snd (commit t s (toggleLiveUpdate s, snd (liveUpdateEffect now (s, q)))))"
    by (simp add: e off fire_none)
  {
    assume "t < now + 10000"
    with fire_early [OF p1, of t s']
    show "fireTimers t (s', snd (liveUpdateEffect now (s, q)))
          = ((s', None), snd (liveUpdateEffect now (s, q)))"
      by (simp add: e)
  }
  {
    assume "now + 10000 \<le> t"
    with fire_due [OF p1, of t s']
    show "fst (fireTimers t (s', snd (liveUpdateEffect now (s, q)))) = startScan s s'"
      by (simp add: e)
    from a show "isFetching (fetchStatus (fst (startScan s s')))"
      by (simp add: startScan_fetching)
  }
next
  assume q: "oneTimer q"
    and a: "isLiveUpdate s \<and> \<not> isFetching (fetchStatus s) \<and> \<not> complete (fetchStatus s)
            \<and> length (holders s) = 0"
  then have e: "liveUpdateEffect now (s, q)
                = (startScan s s, q\<lparr> pending := [], timeout := None \<rparr>)"
    by (simp add: effect_first)
  show "fst (liveUpdateEffect now (s, q)) = startScan s s" by (simp add: e)
  show "pending (snd (liveUpdateEffect now (s, q))) = []" by (simp add: e)
  from a show "isFetching (fetchStatus (fst (startScan s s)))"
    by (simp add: startScan_fetching)
qed

theorem C9_witness:
  "oneTimer initialScheduler
   \<and> isLiveUpdate emptyDone \<and> \<not> isFetching (fetchStatus emptyDone)
   \<and> complete (fetchStatus emptyDone)
   \<and> pending (snd (liveUpdateEffect 7 (emptyDone, initialScheduler)))
       = [(nextHandle initialScheduler, 7 + 10000, emptyDone)]
   \<and> (10006 :: nat) < 7 + 10000
   \<and> fireTimers 10006 (emptyDone, snd (liveUpdateEffect 7 (emptyDone, initialScheduler)))
       = ((emptyDone, None), snd (liveUpdateEffect 7 (emptyDone, initialScheduler)))
   \<and> (7 :: nat) + 10000 \<le> 10007
   \<and> fst (fireTimers 10007 (emptyDone, snd (liveUpdateEffect 7 (emptyDone, initialScheduler))))
       = startScan emptyDone emptyDone
   \<and> isFetching (fetchStatus (fst (startScan emptyDone emptyDone)))
   \<and> pending (snd (commit 5000 emptyDone
                      (toggleLiveUpdate emptyDone,
                       snd (liveUpdateEffect 7 (emptyDone, initialScheduler))))) = []
   \<and> isLiveUpdate liveApp \<and> \<not> isFetching (fetchStatus liveApp)
   \<and> \<not> complete (fetchStatus liveApp) \<and> length (holders liveApp) = 0
   \<and> fst (liveUpdateEffect 0 (liveApp, initialScheduler)) = startScan liveApp liveApp
   \<and> isFetching (fetchStatus (fst (startScan liveApp liveApp)))"
proof -
  note e = emptyDone_fields
  note l = liveApp_fields
  have q: "oneTimer initialScheduler" by (rule oneTimer_initial)
  have t1: "(10006 :: nat) < 7 + 10000" by simp
  have t2: "(7 :: nat) + 10000 \<le> 10007" by simp
  note early = C9_live_update [where q = initialScheduler and s = emptyDone and now = 7
      and t = 10006 and s' = emptyDone and u = 0]
  note due = C9_live_update [where q = initialScheduler and s = emptyDone and now = 7
      and t = 10007 and s' = emptyDone and u = 0]
  note off = C9_live_update [where q = initialScheduler and s = emptyDone and now = 7
      and t = 5000 and s' = emptyDone and u = 0]
  note first = C9_live_update [where q = initialScheduler and s = liveApp and now = 0]
  from early q e t1
  have c1: "pending (snd (liveUpdateEffect 7 (emptyDone, initialScheduler)))
       = [(nextHandle initialScheduler, 7 + 10000, emptyDone)]"
    and c2: "fireTimers 10006 (emptyDone, snd (liveUpdateEffect 7 (emptyDone, initialScheduler)))
       = ((emptyDone, None), snd (liveUpdateEffect 7 (emptyDone, initialScheduler)))"
    by blast+
  from due q e t2
  have c3: "fst (fireTimers 10007 (emptyDone, snd (liveUpdateEffect 7 (emptyDone, initialScheduler))))
       = startScan emptyDone emptyDone"
    and c4: "isFetching (fetchStatus (fst (startScan emptyDone emptyDone)))"
    by blast+
  from off q e
  have c5: "pending (snd (commit 5000 emptyDone
                      (toggleLiveUpdate emptyDone,
                       snd (liveUpdateEffect 7 (emptyDone, initialScheduler))))) = []"
    by blast
  from first q l
  have c6: "fst (liveUpdateEffect 0 (liveApp, initialScheduler)) = startScan liveApp liveApp"
    and c7: "isFetching (fetchStatus (fst (startScan liveApp liveApp)))"
    by blast+
  from q e l t1 t2 c1 c2 c3 c4 c5 c6 c7 show ?thesis by blast
qed


end
